theory Spec2Isabelle
  imports Main "HOL-Library.AList"
begin

section \<open>Data model of the simulator (classes/simulator\_7.py)\<close>

text \<open>
  The embedding follows \<^verbatim>\<open>class Simulator\<close>. Python integers are \<open>int\<close>; virtual
  time (\<^verbatim>\<open>env.now\<close>) is an \<open>int\<close>; the value \<^verbatim>\<open>float("inf")\<close> of the
  placeholder rows is the constructor \<open>Infinite\<close> of \<open>number\<close>. Exceptions are values
  of \<open>py_error\<close>. The flag \<^verbatim>\<open>printing\<close> has its default \<^verbatim>\<open>False\<close>, so no
  \<^verbatim>\<open>print\<close> is modelled.
\<close>

datatype py_error = IndexError | KeyError | ValueError

text \<open>
  Modelled from the spec: the enumerations \<^verbatim>\<open>FailureCode\<close> and \<^verbatim>\<open>Action\<close> of
  \<^verbatim>\<open>classes.classes\<close> (section 3 of the specification lists the five codes; the log
  actions are START and END). Both are plain enumerations, so every member is truthy
  for Python's \<^verbatim>\<open>or\<close>.
\<close>

datatype FailureCode = AVAILABILITY | PRECEDENCE | MIN_LAG | MAX_LAG | COMPATIBILITY

datatype Action = START | END

datatype number = Finite int | Infinite

text \<open>\<^verbatim>\<open>Resource = namedtuple('Machine', 'resource_group, id')\<close>\<close>

record Machine =
  resource_group :: string
  machine_id :: int

text \<open>
  The plan's classes are declared in \<^verbatim>\<open>classes.classes\<close>; the simulator reads the
  attributes below. A subscripted attribute whose container type the simulator does not
  fix (\<^verbatim>\<open>predecessors\<close>, \<^verbatim>\<open>temporal_relations\<close>, \<^verbatim>\<open>activities\<close>) is a partial
  map: an absent key is the lookup that raises.
\<close>

record TemporalRelation =
  min_lag :: int
  max_lag :: "int option"

record Constraint =
  product_id :: int
  activity_id :: int

record Activity =
  constraints :: "Constraint list"

record Product =
  ident :: int
  activities :: "int \<rightharpoonup> Activity"
  predecessors :: "int \<rightharpoonup> int list"
  temporal_relations :: "(int \<times> int) \<rightharpoonup> TemporalRelation"
  deadline :: int

record Plan =
  products :: "Product list"
  earliest_start :: "(int \<times> int) list"
  factory_resource_names :: "string list"
  factory_capacity :: "int list"

text \<open>
  Modelled from the spec: a \<^verbatim>\<open>LogEntry\<close> of \<^verbatim>\<open>SimulatorLogger\<close> (section 3:
  product index, activity id, action, virtual timestamp; \<^verbatim>\<open>log_activity\<close> is also
  handed the product's id).
\<close>

record LogEntry =
  log_product_id :: int
  log_activity_id :: int
  log_product_index :: int
  log_action :: Action
  timestamp :: int

datatype needs_value = NeedsInfinite | NeedsVector "int list"

datatype resources_value = Marker string | Assigned "Machine list"

text \<open>One value of the dictionary \<^verbatim>\<open>self.resource_usage\<close>, a row of the output table.\<close>

record UsageRecord =
  ProductIndex :: int
  ActivityId :: int
  Needs :: needs_value
  Resources :: resources_value
  Request :: number
  Retrieve :: number
  Start :: number
  Finish :: number

text \<open>
  One generator \<^verbatim>\<open>activity_processing(activity_id, product_index, proc_time, needs)\<close>:
  its arguments, its local variables and the point where it is suspended.
\<close>

datatype pc =
    Requested
  | Acquiring "string list"
  | Running
  | Releasing "Machine list"
  | Completed
  | Rejected

record Process =
  p_activity_id :: int
  p_product_index :: int
  p_proc_time :: int
  p_needs :: "int list"
  p_pc :: pc
  p_resources :: "Machine list"
  request_time :: int
  retrieve_time :: int
  start_time :: int
  end_time :: int

text \<open>
  The simulator object together with what it owns: \<^verbatim>\<open>self.env.now\<close>,
  \<^verbatim>\<open>self.factory.items\<close> and the store's capacity, the logger's log, active set and
  \<^verbatim>\<open>failure_code\<close>, the calls received by the operator, and the live generators.
\<close>

record Simulator =
  plan :: Plan
  resource_names :: "string list"
  capacity :: "int list"
  now :: int
  items :: "Machine list"
  store_capacity :: int
  resource_usage :: "((int \<times> int) \<times> UsageRecord) list"
  nr_clashes :: int
  entries :: "LogEntry list"
  active_processes :: "(int \<times> int) list"
  failure_code :: "FailureCode option"
  signalled :: "(int \<times> int \<times> int \<times> FailureCode option) list"
  procs :: "Process list"

section \<open>Subscripts and the logger\<close>

text \<open>Python's \<^verbatim>\<open>xs[i]\<close> on a list: a negative index counts from the end.\<close>

definition subscript :: "'a list \<Rightarrow> int \<Rightarrow> py_error + 'a" where
  "subscript xs i =
     (if 0 \<le> i \<and> i < int (length xs) then Inr (xs ! nat i)
      else if i < 0 \<and> - int (length xs) \<le> i then Inr (xs ! nat (int (length xs) + i))
      else Inl IndexError)"

text \<open>
  Modelled from the spec: \<^verbatim>\<open>SimulatorLogger.fetch_latest_entry\<close> (section 4.2,
  \<open>latest_start\<close>): the most recent entry of that product index, activity and action,
  or nothing.
\<close>

definition fetch_latest_entry :: "Simulator \<Rightarrow> int \<Rightarrow> int \<Rightarrow> Action \<Rightarrow> LogEntry option" where
  "fetch_latest_entry s product_index act_id action =
     find (\<lambda>e. log_product_index e = product_index \<and> log_activity_id e = act_id
                \<and> log_action e = action) (rev (entries s))"

text \<open>
  Modelled from the spec: \<^verbatim>\<open>SimulatorLogger.log_activity\<close> (section 4.2, \<open>record\<close>):
  appends an entry; START adds the pair to the active set, END removes it.
\<close>

definition log_activity :: "int \<Rightarrow> int \<Rightarrow> int \<Rightarrow> Action \<Rightarrow> int \<Rightarrow> Simulator \<Rightarrow> Simulator" where
  "log_activity prod_id act_id product_index action t s =
     s\<lparr>entries := entries s @
          [\<lparr>log_product_id = prod_id, log_activity_id = act_id,
            log_product_index = product_index, log_action = action, timestamp = t\<rparr>],
       active_processes :=
         (case action of
            START \<Rightarrow> active_processes s @ [(product_index, act_id)]
          | END \<Rightarrow> removeAll (product_index, act_id) (active_processes s))\<rparr>"

section \<open>The three constraint checks\<close>

definition available_machines :: "Machine list \<Rightarrow> string \<Rightarrow> nat" where
  "available_machines its g = count_list (map resource_group its) g"

text \<open>
  \<^verbatim>\<open>_availability_constraint_check\<close>: the loop over \<^verbatim>\<open>enumerate(needs)\<close> with the
  local \<^verbatim>\<open>failure_code\<close> as accumulator; it does not leave the loop early.
\<close>

fun availability_loop ::
  "Simulator \<Rightarrow> (nat \<times> int) list \<Rightarrow> FailureCode option \<Rightarrow> py_error + FailureCode option" where
  "availability_loop s [] fc = Inr fc"
| "availability_loop s ((r, need) # rest) fc =
     (if 0 < need then
        (case subscript (resource_names s) (int r) of
           Inl e \<Rightarrow> Inl e
         | Inr g \<Rightarrow>
             availability_loop s rest
               (if int (available_machines (items s) g) < need then Some AVAILABILITY else fc))
      else availability_loop s rest fc)"

definition availability_constraint_check ::
  "Simulator \<Rightarrow> int list \<Rightarrow> py_error + FailureCode option" where
  "availability_constraint_check s needs = availability_loop s (enumerate 0 needs) None"

text \<open>
  \<^verbatim>\<open>_precedence_constraint_check\<close>: the loop over the predecessors. The min-lag branch
  assigns \<^verbatim>\<open>self.logger.failure_code\<close> and goes on with the next predecessor; the
  max-lag branch tests the truth value of \<^verbatim>\<open>temp_rel.max_lag\<close> (\<^verbatim>\<open>None\<close> and \<^verbatim>\<open>0\<close>
  are false) before comparing.
\<close>

fun precedence_loop ::
  "Simulator \<Rightarrow> Product \<Rightarrow> int \<Rightarrow> int \<Rightarrow> int list \<Rightarrow> py_error + (FailureCode option \<times> Simulator)" where
  "precedence_loop s product product_index act_id [] = Inr (None, s)"
| "precedence_loop s product product_index act_id (pred_activity_id # rest) =
     (case temporal_relations product (pred_activity_id, act_id) of
        None \<Rightarrow> Inl KeyError
      | Some temp_rel \<Rightarrow>
          (case fetch_latest_entry s product_index pred_activity_id START of
             None \<Rightarrow> Inr (Some PRECEDENCE, s)
           | Some start_pred_log \<Rightarrow>
               (if now s - timestamp start_pred_log < min_lag temp_rel then
                  precedence_loop (s\<lparr>failure_code := Some MIN_LAG\<rparr>) product product_index act_id rest
                else if (case max_lag temp_rel of
                           None \<Rightarrow> False
                         | Some m \<Rightarrow> m \<noteq> 0 \<and> m < now s - timestamp start_pred_log) then
                  Inr (Some MAX_LAG, s)
                else precedence_loop s product product_index act_id rest)))"

definition precedence_constraint_check ::
  "Simulator \<Rightarrow> int \<Rightarrow> int \<Rightarrow> py_error + (FailureCode option \<times> Simulator)" where
  "precedence_constraint_check s product_index act_id =
     (case subscript (products (plan s)) product_index of
        Inl e \<Rightarrow> Inl e
      | Inr product \<Rightarrow>
          (case predecessors product act_id of
             None \<Rightarrow> Inl KeyError
           | Some preds \<Rightarrow> precedence_loop s product product_index act_id preds))"

text \<open>\<^verbatim>\<open>_compatibility_constraint_check\<close>: returns at the first active conflicting pair.\<close>

fun compatibility_loop :: "(int \<times> int) list \<Rightarrow> Constraint list \<Rightarrow> FailureCode option" where
  "compatibility_loop active [] = None"
| "compatibility_loop active (c # cs) =
     (if (product_id c, activity_id c) \<in> set active then Some COMPATIBILITY
      else compatibility_loop active cs)"

definition compatibility_constraint_check ::
  "Simulator \<Rightarrow> int \<Rightarrow> int \<Rightarrow> py_error + FailureCode option" where
  "compatibility_constraint_check s product_index act_id =
     (case subscript (products (plan s)) product_index of
        Inl e \<Rightarrow> Inl e
      | Inr product \<Rightarrow>
          (case activities product act_id of
             None \<Rightarrow> Inl KeyError
           | Some a \<Rightarrow> Inr (compatibility_loop (active_processes s) (constraints a))))"

text \<open>
  Lines 98 to 100 of \<^verbatim>\<open>activity_processing\<close>:
  \<^verbatim>\<open>self.logger.failure_code = availability(...) or precedence(...) or compatibility(...)\<close>.
  Python evaluates the right-hand side first, left to right and stopping at the first
  truthy operand, and assigns afterwards.
\<close>

definition constraint_check ::
  "Simulator \<Rightarrow> int list \<Rightarrow> int \<Rightarrow> int \<Rightarrow> py_error + (FailureCode option \<times> Simulator)" where
  "constraint_check s needs product_index act_id =
     (case availability_constraint_check s needs of
        Inl e \<Rightarrow> Inl e
      | Inr (Some c) \<Rightarrow> Inr (Some c, s\<lparr>failure_code := Some c\<rparr>)
      | Inr None \<Rightarrow>
          (case precedence_constraint_check s product_index act_id of
             Inl e \<Rightarrow> Inl e
           | Inr (Some c, s1) \<Rightarrow> Inr (Some c, s1\<lparr>failure_code := Some c\<rparr>)
           | Inr (None, s1) \<Rightarrow>
               (case compatibility_constraint_check s1 product_index act_id of
                  Inl e \<Rightarrow> Inl e
                | Inr c \<Rightarrow> Inr (c, s1\<lparr>failure_code := c\<rparr>))))"

section \<open>The activity process\<close>

text \<open>
  The \<^verbatim>\<open>get\<close> requests of lines 110 to 115, in the order the two nested loops issue
  them: \<^verbatim>\<open>need\<close> requests for group \<^verbatim>\<open>self.resource_names[r]\<close>, for every position
  \<open>r\<close> with a positive need.
\<close>

fun get_requests :: "string list \<Rightarrow> (nat \<times> int) list \<Rightarrow> py_error + string list" where
  "get_requests names [] = Inr []"
| "get_requests names ((r, need) # rest) =
     (if 0 < need then
        (case subscript names (int r) of
           Inl e \<Rightarrow> Inl e
         | Inr g \<Rightarrow>
             (case get_requests names rest of
                Inl e \<Rightarrow> Inl e
              | Inr gs \<Rightarrow> Inr (replicate (nat need) g @ gs)))
      else get_requests names rest)"

text \<open>
  Modelled from the spec: \<^verbatim>\<open>FilterStore.get\<close> of the simpy library (section 4.1,
  \<open>acquire\<close>): the first item of the store whose group matches is removed and handed
  out; with no match the request stays pending.
\<close>

definition store_get :: "string \<Rightarrow> Machine list \<Rightarrow> (Machine \<times> Machine list) option" where
  "store_get g its =
     (case find (\<lambda>i. resource_group i = g) its of
        None \<Rightarrow> None
      | Some i \<Rightarrow> Some (i, remove1 i its))"

definition set_proc :: "nat \<Rightarrow> Process \<Rightarrow> Simulator \<Rightarrow> Simulator" where
  "set_proc pid p s = s\<lparr>procs := (procs s)[pid := p]\<rparr>"

text \<open>
  \<^verbatim>\<open>activity_processing\<close>, one resumption of generator \<open>pid\<close>: the code between two
  \<^verbatim>\<open>yield\<close>s runs without interruption. A \<^verbatim>\<open>yield\<close> that cannot be served yet
  (no matching item, processing time not elapsed, store full) leaves the state as it
  is. \<open>Requested\<close> is the generator before its first resumption (lines 93 to 109 and
  160 to 166), \<open>Acquiring\<close> the requests of lines 110 to 115, \<open>Acquiring []\<close> lines 117
  to 130, \<open>Running\<close> lines 133 to 135, \<open>Releasing\<close> lines 139 to 140 and \<open>Releasing []\<close>
  lines 147 to 155.
\<close>

definition activity_processing :: "nat \<Rightarrow> Simulator \<Rightarrow> py_error + Simulator" where
  "activity_processing pid s =
     (if length (procs s) \<le> pid then Inr s
      else
        let p = procs s ! pid in
        (case p_pc p of
           Requested \<Rightarrow>
             (case constraint_check s (p_needs p) (p_product_index p) (p_activity_id p) of
                Inl e \<Rightarrow> Inl e
              | Inr (None, s1) \<Rightarrow>
                  (case get_requests (resource_names s1) (enumerate 0 (p_needs p)) of
                     Inl e \<Rightarrow> Inl e
                   | Inr gs \<Rightarrow>
                       Inr (set_proc pid
                              (p\<lparr>request_time := now s, p_resources := [], p_pc := Acquiring gs\<rparr>) s1))
              | Inr (Some c, s1) \<Rightarrow>
                  Inr (set_proc pid (p\<lparr>request_time := now s, p_pc := Rejected\<rparr>)
                         (s1\<lparr>signalled := signalled s1 @
                                [(p_product_index p, p_activity_id p, now s1, failure_code s1)],
                             nr_clashes := nr_clashes s1 + 1\<rparr>)))
         | Acquiring (g # gs) \<Rightarrow>
             (case store_get g (items s) of
                None \<Rightarrow> Inr s
              | Some (i, its) \<Rightarrow>
                  Inr (set_proc pid (p\<lparr>p_resources := p_resources p @ [i], p_pc := Acquiring gs\<rparr>)
                         (s\<lparr>items := its\<rparr>)))
         | Acquiring [] \<Rightarrow>
             (case subscript (products (plan s)) (p_product_index p) of
                Inl e \<Rightarrow> Inl e
              | Inr product \<Rightarrow>
                  (if p_proc_time p < 0 then Inl ValueError
                   else
                     Inr (set_proc pid
                            (p\<lparr>retrieve_time := now s, start_time := now s, p_pc := Running\<rparr>)
                            (log_activity (ident product) (p_activity_id p) (p_product_index p)
                               START (now s) s))))
         | Running \<Rightarrow>
             (if now s = start_time p + p_proc_time p then
                (case subscript (products (plan s)) (p_product_index p) of
                   Inl e \<Rightarrow> Inl e
                 | Inr product \<Rightarrow>
                     Inr (set_proc pid (p\<lparr>end_time := now s, p_pc := Releasing (p_resources p)\<rparr>)
                            (log_activity (ident product) (p_activity_id p) (p_product_index p)
                               END (now s) s)))
              else Inr s)
         | Releasing (m # ms) \<Rightarrow>
             (if int (length (items s)) < store_capacity s then
                Inr (set_proc pid (p\<lparr>p_pc := Releasing ms\<rparr>) (s\<lparr>items := items s @ [m]\<rparr>))
              else Inr s)
         | Releasing [] \<Rightarrow>
             Inr (set_proc pid (p\<lparr>p_pc := Completed\<rparr>)
                    (s\<lparr>resource_usage :=
                         AList.update (p_product_index p, p_activity_id p)
                           \<lparr>ProductIndex = p_product_index p, ActivityId = p_activity_id p,
                            Needs = NeedsVector (p_needs p), Resources = Assigned (p_resources p),
                            Request = Finite (request_time p), Retrieve = Finite (retrieve_time p),
                            Start = Finite (start_time p), Finish = Finite (end_time p)\<rparr>
                           (resource_usage s)\<rparr>))
         | Completed \<Rightarrow> Inr s
         | Rejected \<Rightarrow> Inr s))"

section \<open>The run\<close>

text \<open>
  The event queue of simpy and the decisions of the operator are not part of the
  simulator; a run is driven by a schedule. \<open>Dispatch\<close> is
  \<^verbatim>\<open>self.env.process(self.activity_processing(...))\<close> of \<^verbatim>\<open>activity_generator\<close> for a
  decision of the operator, \<open>Resume\<close> resumes one generator, \<open>Tick\<close> lets virtual time
  pass. Every order in which the queue can resume the generators is a schedule; the
  run horizon ends the schedule.
\<close>

datatype event =
    Dispatch int int int "int list"
  | Resume nat
  | Tick nat

definition new_process :: "int \<Rightarrow> int \<Rightarrow> int \<Rightarrow> int list \<Rightarrow> Process" where
  "new_process act_id product_index proc_time needs =
     \<lparr>p_activity_id = act_id, p_product_index = product_index, p_proc_time = proc_time,
      p_needs = needs, p_pc = Requested, p_resources = [], request_time = 0,
      retrieve_time = 0, start_time = 0, end_time = 0\<rparr>"

fun step :: "event \<Rightarrow> Simulator \<Rightarrow> py_error + Simulator" where
  "step (Dispatch act_id product_index proc_time needs) s =
     Inr (s\<lparr>procs := procs s @ [new_process act_id product_index proc_time needs]\<rparr>)"
| "step (Resume pid) s = activity_processing pid s"
| "step (Tick d) s = Inr (s\<lparr>now := now s + int d\<rparr>)"

fun run :: "event list \<Rightarrow> Simulator \<Rightarrow> py_error + Simulator" where
  "run [] s = Inr s"
| "run (e # es) s = (case step e s of Inl err \<Rightarrow> Inl err | Inr s' \<Rightarrow> run es s')"

section \<open>simulate: set-up and results\<close>

text \<open>The placeholder row of lines 201 to 209.\<close>

definition sentinel :: "int \<Rightarrow> int \<Rightarrow> UsageRecord" where
  "sentinel product_index act_id =
     \<lparr>ProductIndex = product_index, ActivityId = act_id, Needs = NeedsInfinite,
      Resources = Marker ''NOT PROCESSED DUE TO CLASH'', Request = Infinite,
      Retrieve = Infinite, Start = Infinite, Finish = Infinite\<rparr>"

text \<open>
  Lines 216 to 221: for every \<open>r\<close> in \<^verbatim>\<open>range(0, self.nr_resources)\<close> and every \<open>j\<close> in
  \<^verbatim>\<open>range(0, self.capacity[r])\<close> one machine \<open>(resource_names[r], j)\<close>.
\<close>

fun create_resources :: "string list \<Rightarrow> int list \<Rightarrow> nat list \<Rightarrow> py_error + Machine list" where
  "create_resources names cap [] = Inr []"
| "create_resources names cap (r # rs) =
     (case subscript cap (int r) of
        Inl e \<Rightarrow> Inl e
      | Inr c \<Rightarrow>
          (case create_resources names cap rs of
             Inl e \<Rightarrow> Inl e
           | Inr ms \<Rightarrow>
               Inr (map (\<lambda>j. \<lparr>resource_group = names ! r, machine_id = int j\<rparr>) [0..<nat c] @ ms)))"

text \<open>
  \<^verbatim>\<open>__init__\<close> followed by lines 192 to 221 of \<^verbatim>\<open>simulate\<close>. simpy refuses a store
  whose capacity is not positive with a \<^verbatim>\<open>ValueError\<close>.
\<close>

definition initial :: "Plan \<Rightarrow> py_error + Simulator" where
  "initial pl =
     (if sum_list (factory_capacity pl) \<le> 0 then Inl ValueError
      else
        (case create_resources (factory_resource_names pl) (factory_capacity pl)
                [0..<length (factory_resource_names pl)] of
           Inl e \<Rightarrow> Inl e
         | Inr its \<Rightarrow>
             Inr \<lparr>plan = pl, resource_names = factory_resource_names pl,
                  capacity = factory_capacity pl, now = 0, items = its,
                  store_capacity = sum_list (factory_capacity pl),
                  resource_usage =
                    fold (\<lambda>act. AList.update act (sentinel (fst act) (snd act)))
                      (earliest_start pl) [],
                  nr_clashes = 0, entries = [], active_processes = [], failure_code = None,
                  signalled = [], procs = []\<rparr>))"

text \<open>The rows of the data frame of line 232: the dictionary's values in insertion order.\<close>

definition output_table :: "Simulator \<Rightarrow> UsageRecord list" where
  "output_table s = map snd (resource_usage s)"

fun finite_values :: "number list \<Rightarrow> int list" where
  "finite_values [] = []"
| "finite_values (Finite i # xs) = i # finite_values xs"
| "finite_values (Infinite # xs) = finite_values xs"

fun max_number :: "number \<Rightarrow> number \<Rightarrow> number" where
  "max_number Infinite y = Infinite"
| "max_number (Finite a) Infinite = Infinite"
| "max_number (Finite a) (Finite b) = Finite (max a b)"

text \<open>Python's \<^verbatim>\<open>max\<close> of a sequence: a \<^verbatim>\<open>ValueError\<close> on the empty one.\<close>

fun py_max :: "int list \<Rightarrow> py_error + int" where
  "py_max [] = Inl ValueError"
| "py_max (x # xs) = Inr (fold max xs x)"

fun py_max_number :: "number list \<Rightarrow> py_error + number" where
  "py_max_number [] = Inl ValueError"
| "py_max_number (x # xs) = Inr (fold (\<lambda>y acc. max_number acc y) xs x)"

text \<open>Lines 236 to 238. A data frame without rows has no column \<^verbatim>\<open>Finish\<close>.\<close>

definition makespan :: "UsageRecord list \<Rightarrow> py_error + int" where
  "makespan rows =
     (if rows = [] then Inl KeyError else py_max (finite_values (map Finish rows)))"

text \<open>Lines 242 to 254: the loop over \<^verbatim>\<open>range(len(self.plan.products))\<close>.\<close>

fun products_loop ::
  "Product list \<Rightarrow> UsageRecord list \<Rightarrow> nat list \<Rightarrow> int \<Rightarrow> int \<Rightarrow> py_error + (int \<times> int)" where
  "products_loop ps rows [] lateness nr_unfinished_products =
     Inr (lateness, nr_unfinished_products)"
| "products_loop ps rows (p # rest) lateness nr_unfinished_products =
     (case py_max_number (map Finish (filter (\<lambda>row. ProductIndex row = int p) rows)) of
        Inl e \<Rightarrow> Inl e
      | Inr Infinite \<Rightarrow> products_loop ps rows rest lateness (nr_unfinished_products + 1)
      | Inr (Finite finish) \<Rightarrow>
          products_loop ps rows rest (lateness + max 0 (finish - deadline (ps ! p)))
            nr_unfinished_products)"

definition results :: "Simulator \<Rightarrow> py_error + (int \<times> int \<times> int)" where
  "results s =
     (case makespan (output_table s) of
        Inl e \<Rightarrow> Inl e
      | Inr m \<Rightarrow>
          (case products_loop (products (plan s)) (output_table s)
                  [0..<length (products (plan s))] 0 0 of
             Inl e \<Rightarrow> Inl e
           | Inr (lateness, nr_unfinished_products) \<Rightarrow>
               Inr (m, lateness, nr_unfinished_products)))"

definition simulate :: "Plan \<Rightarrow> event list \<Rightarrow> py_error + (UsageRecord list \<times> int \<times> int \<times> int)" where
  "simulate pl schedule =
     (case initial pl of
        Inl e \<Rightarrow> Inl e
      | Inr s0 \<Rightarrow>
          (case run schedule s0 of
             Inl e \<Rightarrow> Inl e
           | Inr s \<Rightarrow>
               (case results s of
                  Inl e \<Rightarrow> Inl e
                | Inr t \<Rightarrow> Inr (output_table s, t))))"

section \<open>Notions used in the statements\<close>

text \<open>
  The maximum of a list of finish times, \<open>Infinite\<close> being larger than every finite time.
\<close>

definition maximum_finish :: "number list \<Rightarrow> number" where
  "maximum_finish xs =
     (if Infinite \<in> set xs then Infinite else Finite (Max (set (finite_values xs))))"

text \<open>
  The finish of product \<open>p\<close>: the maximum \<^verbatim>\<open>Finish\<close> over the rows whose
  \<^verbatim>\<open>ProductIndex\<close> is \<open>p\<close>.
\<close>

definition product_finish :: "UsageRecord list \<Rightarrow> nat \<Rightarrow> number" where
  "product_finish rows p =
     maximum_finish (map Finish (filter (\<lambda>row. ProductIndex row = int p) rows))"

text \<open>
  The machines a process holds: those the store has handed out to it and that it has
  not put back yet.
\<close>

definition held :: "Process \<Rightarrow> Machine list" where
  "held p =
     (case p_pc p of
        Requested \<Rightarrow> []
      | Acquiring gs \<Rightarrow> p_resources p
      | Running \<Rightarrow> p_resources p
      | Releasing ms \<Rightarrow> ms
      | Completed \<Rightarrow> []
      | Rejected \<Rightarrow> [])"

text \<open>
  The number of machines of group \<open>g\<close> held by the processes.
\<close>

definition in_use :: "Simulator \<Rightarrow> string \<Rightarrow> nat" where
  "in_use s g = (\<Sum>p\<leftarrow>procs s. available_machines (held p) g)"

text \<open>
  Some process of activity \<open>act_id\<close> of product \<open>product_index\<close> has run to its end
  (line 147 has been executed for it).
\<close>

definition completed :: "Simulator \<Rightarrow> int \<Rightarrow> int \<Rightarrow> bool" where
  "completed s product_index act_id =
     (\<exists>p\<in>set (procs s). p_pc p = Completed \<and> p_product_index p = product_index \<and>
                          p_activity_id p = act_id)"

section \<open>Example data\<close>

text \<open>
  Example data: one product with three activities. Activity 1 declares activity 0 of
  product 0 as incompatible; activity 2 has activity 0 as its predecessor, with the
  temporal relation \<open>rel\<close>. Two resource groups of capacity 1.
\<close>

definition example_product :: "TemporalRelation \<Rightarrow> Product" where
  "example_product rel =
     \<lparr>ident = 0,
      activities = [0 \<mapsto> \<lparr>constraints = []\<rparr>,
                    1 \<mapsto> \<lparr>constraints = [\<lparr>product_id = 0, activity_id = 0\<rparr>]\<rparr>,
                    2 \<mapsto> \<lparr>constraints = []\<rparr>],
      predecessors = [0 \<mapsto> [], 1 \<mapsto> [], 2 \<mapsto> [0]],
      temporal_relations = [(0, 2) \<mapsto> rel],
      deadline = 8\<rparr>"

definition example_plan :: "TemporalRelation \<Rightarrow> Plan" where
  "example_plan rel =
     \<lparr>products = [example_product rel], earliest_start = [(0, 0), (0, 1), (0, 2)],
      factory_resource_names = [''Filter'', ''Mixer''], factory_capacity = [1, 1]\<rparr>"

text \<open>
  The state in which \<^verbatim>\<open>simulate\<close> starts the run of the example plan.
\<close>

definition example_initial :: "TemporalRelation \<Rightarrow> Simulator" where
  "example_initial rel =
     \<lparr>plan = example_plan rel, resource_names = [''Filter'', ''Mixer''], capacity = [1, 1],
      now = 0,
      items = [\<lparr>resource_group = ''Filter'', machine_id = 0\<rparr>,
               \<lparr>resource_group = ''Mixer'', machine_id = 0\<rparr>],
      store_capacity = 2,
      resource_usage = [((0, 0), sentinel 0 0), ((0, 1), sentinel 0 1), ((0, 2), sentinel 0 2)],
      nr_clashes = 0, entries = [], active_processes = [], failure_code = None,
      signalled = [], procs = []\<rparr>"

text \<open>
  The state of the example at time \<open>t\<close>, when activity 0 started at time 0, runs on the
  filter, and activity \<open>act_id\<close> has just been dispatched with needs \<open>[0, 1]\<close>.
\<close>

definition example_started :: "TemporalRelation \<Rightarrow> int \<Rightarrow> int \<Rightarrow> Simulator" where
  "example_started rel t act_id =
     (example_initial rel)
       \<lparr>now := t,
        items := [\<lparr>resource_group = ''Mixer'', machine_id = 0\<rparr>],
        entries := [\<lparr>log_product_id = 0, log_activity_id = 0, log_product_index = 0,
                     log_action = START, timestamp = 0\<rparr>],
        active_processes := [(0, 0)],
        procs := [(new_process 0 0 4 [1, 0])
                    \<lparr>p_pc := Running,
                     p_resources := [\<lparr>resource_group = ''Filter'', machine_id = 0\<rparr>]\<rparr>,
                  new_process act_id 0 5 [0, 1]]\<rparr>"

text \<open>
  The example with activity 2 declaring, besides its predecessor, activity 0 of product
  0 as incompatible; and its state at time \<open>t\<close>, when activity 0 runs and activity 2
  has just been dispatched.
\<close>

definition example_conflict_plan :: "TemporalRelation \<Rightarrow> Plan" where
  "example_conflict_plan rel =
     (example_plan rel)
       \<lparr>products :=
          [(example_product rel)
             \<lparr>activities :=
                (activities (example_product rel))
                  (2 \<mapsto> \<lparr>constraints = [\<lparr>product_id = 0, activity_id = 0\<rparr>]\<rparr>)\<rparr>]\<rparr>"

definition example_conflict :: "TemporalRelation \<Rightarrow> int \<Rightarrow> Simulator" where
  "example_conflict rel t = (example_started rel t 2)\<lparr>plan := example_conflict_plan rel\<rparr>"

text \<open>
  A schedule that carries the three activities of the example through, one after the
  other, with the rows and the final state it produces.
\<close>

definition example_schedule :: "event list" where
  "example_schedule =
     [Dispatch 0 0 4 [1, 0], Resume 0, Resume 0, Resume 0, Tick 4, Resume 0, Resume 0, Resume 0,
      Dispatch 1 0 5 [0, 1], Resume 1, Resume 1, Resume 1, Tick 5, Resume 1, Resume 1, Resume 1,
      Dispatch 2 0 2 [1, 0], Resume 2, Resume 2, Resume 2, Tick 2, Resume 2, Resume 2, Resume 2]"

definition example_table :: "UsageRecord list" where
  "example_table =
     [\<lparr>ProductIndex = 0, ActivityId = 0, Needs = NeedsVector [1, 0],
       Resources = Assigned [\<lparr>resource_group = ''Filter'', machine_id = 0\<rparr>],
       Request = Finite 0, Retrieve = Finite 0, Start = Finite 0, Finish = Finite 4\<rparr>,
      \<lparr>ProductIndex = 0, ActivityId = 1, Needs = NeedsVector [0, 1],
       Resources = Assigned [\<lparr>resource_group = ''Mixer'', machine_id = 0\<rparr>],
       Request = Finite 4, Retrieve = Finite 4, Start = Finite 4, Finish = Finite 9\<rparr>,
      \<lparr>ProductIndex = 0, ActivityId = 2, Needs = NeedsVector [1, 0],
       Resources = Assigned [\<lparr>resource_group = ''Filter'', machine_id = 0\<rparr>],
       Request = Finite 9, Retrieve = Finite 9, Start = Finite 9, Finish = Finite 11\<rparr>]"

definition example_final :: Simulator where
  "example_final =
     (example_initial \<lparr>min_lag = 1, max_lag = None\<rparr>)
       \<lparr>now := 11,
        items := [\<lparr>resource_group = ''Mixer'', machine_id = 0\<rparr>,
                  \<lparr>resource_group = ''Filter'', machine_id = 0\<rparr>],
        resource_usage := zip [(0, 0), (0, 1), (0, 2)] example_table,
        entries :=
          [\<lparr>log_product_id = 0, log_activity_id = 0, log_product_index = 0, log_action = START, timestamp = 0\<rparr>,
           \<lparr>log_product_id = 0, log_activity_id = 0, log_product_index = 0, log_action = END, timestamp = 4\<rparr>,
           \<lparr>log_product_id = 0, log_activity_id = 1, log_product_index = 0, log_action = START, timestamp = 4\<rparr>,
           \<lparr>log_product_id = 0, log_activity_id = 1, log_product_index = 0, log_action = END, timestamp = 9\<rparr>,
           \<lparr>log_product_id = 0, log_activity_id = 2, log_product_index = 0, log_action = START, timestamp = 9\<rparr>,
           \<lparr>log_product_id = 0, log_activity_id = 2, log_product_index = 0, log_action = END, timestamp = 11\<rparr>],
        procs :=
          [(new_process 0 0 4 [1, 0])
             \<lparr>p_pc := Completed, p_resources := [\<lparr>resource_group = ''Filter'', machine_id = 0\<rparr>],
              end_time := 4\<rparr>,
           (new_process 1 0 5 [0, 1])
             \<lparr>p_pc := Completed, p_resources := [\<lparr>resource_group = ''Mixer'', machine_id = 0\<rparr>],
              request_time := 4, retrieve_time := 4, start_time := 4, end_time := 9\<rparr>,
           (new_process 2 0 2 [1, 0])
             \<lparr>p_pc := Completed, p_resources := [\<lparr>resource_group = ''Filter'', machine_id = 0\<rparr>],
              request_time := 9, retrieve_time := 9, start_time := 9, end_time := 11\<rparr>]\<rparr>"

section \<open>Properties of the constraint checks\<close>

lemma fetch_latest_entry_failure_code [simp]:
  "fetch_latest_entry (s\<lparr>failure_code := fc\<rparr>) product_index act_id action =
   fetch_latest_entry s product_index act_id action"
  by (simp add: fetch_latest_entry_def)

lemma precedence_loop_frame:
  "precedence_loop s product product_index act_id preds = Inr (c, s1) \<Longrightarrow>
   s1\<lparr>failure_code := failure_code s\<rparr> = s"
proof (induction preds arbitrary: s)
  case Nil
  then show ?case by simp
next
  case (Cons pred_activity_id rest)
  show ?case
  proof (cases "temporal_relations product (pred_activity_id, act_id)")
    case None
    with Cons.prems show ?thesis by simp
  next
    case (Some temp_rel)
    show ?thesis
    proof (cases "fetch_latest_entry s product_index pred_activity_id START")
      case None
      with Some Cons.prems show ?thesis by simp
    next
      case (Some e)
      note fetched = Some
      show ?thesis
      proof (cases "now s - timestamp e < min_lag temp_rel")
        case True
        with \<open>temporal_relations product (pred_activity_id, act_id) = Some temp_rel\<close> fetched Cons.prems
        have "precedence_loop (s\<lparr>failure_code := Some MIN_LAG\<rparr>) product product_index act_id rest
              = Inr (c, s1)"
          by simp
        from Cons.IH [OF this] have "s1\<lparr>failure_code := Some MIN_LAG\<rparr> = s\<lparr>failure_code := Some MIN_LAG\<rparr>"
          by simp
        then have "(s1\<lparr>failure_code := Some MIN_LAG\<rparr>)\<lparr>failure_code := failure_code s\<rparr>
                   = (s\<lparr>failure_code := Some MIN_LAG\<rparr>)\<lparr>failure_code := failure_code s\<rparr>"
          by simp
        then show ?thesis by simp
      next
        case False
        with \<open>temporal_relations product (pred_activity_id, act_id) = Some temp_rel\<close> fetched Cons.prems
        show ?thesis
          by (auto split: if_splits option.splits dest: Cons.IH)
      qed
    qed
  qed
qed

lemma precedence_check_frame:
  "precedence_constraint_check s product_index act_id = Inr (c, s1) \<Longrightarrow>
   s1\<lparr>failure_code := failure_code s\<rparr> = s"
  by (auto simp: precedence_constraint_check_def split: sum.splits option.splits
           dest: precedence_loop_frame)

lemma compatibility_failure_code [simp]:
  "compatibility_constraint_check (s\<lparr>failure_code := fc\<rparr>) product_index act_id =
   compatibility_constraint_check s product_index act_id"
  by (simp add: compatibility_constraint_check_def split: sum.splits option.splits)

lemma frame_update:
  "s1\<lparr>failure_code := failure_code s\<rparr> = s \<Longrightarrow> s1\<lparr>failure_code := fc\<rparr> = s\<lparr>failure_code := fc\<rparr>"
proof -
  assume "s1\<lparr>failure_code := failure_code s\<rparr> = s"
  then have "(s1\<lparr>failure_code := failure_code s\<rparr>)\<lparr>failure_code := fc\<rparr> = s\<lparr>failure_code := fc\<rparr>"
    by simp
  then show ?thesis by simp
qed

lemma compatibility_frame:
  "s1\<lparr>failure_code := failure_code s\<rparr> = s \<Longrightarrow>
   compatibility_constraint_check s1 product_index act_id =
   compatibility_constraint_check s product_index act_id"
proof -
  assume "s1\<lparr>failure_code := failure_code s\<rparr> = s"
  then have "compatibility_constraint_check (s1\<lparr>failure_code := failure_code s\<rparr>) product_index act_id
             = compatibility_constraint_check s product_index act_id"
    by simp
  then show ?thesis by simp
qed

text \<open>
  The value of the expression of lines 98 to 100: the first code returned, in the order
  availability, precedence, compatibility. A later check is consulted only when the
  earlier ones have returned no code.
\<close>

lemma constraint_check_result:
  assumes "availability_constraint_check s needs = Inr a"
    and "a = None \<Longrightarrow> precedence_constraint_check s product_index act_id = Inr (p, s1)"
    and "a = None \<Longrightarrow> p = None \<Longrightarrow> compatibility_constraint_check s product_index act_id = Inr c"
  shows "constraint_check s needs product_index act_id =
         Inr (case a of Some x \<Rightarrow> Some x | None \<Rightarrow> (case p of Some x \<Rightarrow> Some x | None \<Rightarrow> c),
              s\<lparr>failure_code := (case a of Some x \<Rightarrow> Some x | None \<Rightarrow> (case p of Some x \<Rightarrow> Some x | None \<Rightarrow> c))\<rparr>)"
proof (cases a)
  case (Some x)
  with assms(1) show ?thesis by (simp add: constraint_check_def)
next
  case None
  note a = None
  from assms(2) [OF a] have fr: "s1\<lparr>failure_code := failure_code s\<rparr> = s"
    by (rule precedence_check_frame)
  show ?thesis
  proof (cases p)
    case (Some x)
    with a assms(1) assms(2) [OF a] frame_update [OF fr] show ?thesis
      by (simp add: constraint_check_def)
  next
    case None
    with a assms(1) assms(2) [OF a] assms(3) [OF a None] frame_update [OF fr] compatibility_frame [OF fr]
    show ?thesis
      by (simp add: constraint_check_def)
  qed
qed

lemma constraint_check_frame:
  "constraint_check s needs product_index act_id = Inr (c, s') \<Longrightarrow> s' = s\<lparr>failure_code := c\<rparr>"
  by (auto simp: constraint_check_def split: sum.splits option.splits
           dest!: precedence_check_frame dest: frame_update)

lemma subscript_nat:
  "subscript xs (int r) = (if r < length xs then Inr (xs ! r) else Inl IndexError)"
  by (simp add: subscript_def)

lemma ex_less_Suc_split:
  "(\<exists>r<Suc n. P r) \<longleftrightarrow> P 0 \<or> (\<exists>r<n. P (Suc r))"
  by (metis less_Suc_eq_0_disj)

lemma availability_loop_char:
  "availability_loop s (enumerate k needs) fc = Inr a \<Longrightarrow>
   a = (if \<exists>r<length needs. 0 < needs ! r \<and>
              int (available_machines (items s) (resource_names s ! (k + r))) < needs ! r
        then Some AVAILABILITY else fc)"
proof (induction needs arbitrary: k fc)
  case Nil
  then show ?case by simp
next
  case (Cons need rest)
  show ?case
  proof (cases "0 < need")
    case False
    with Cons.prems have "availability_loop s (enumerate (Suc k) rest) fc = Inr a"
      by simp
    from Cons.IH [OF this] False show ?thesis
      by (simp add: ex_less_Suc_split)
  next
    case True
    with Cons.prems have inb: "k < length (resource_names s)"
      by (simp add: subscript_nat split: if_splits)
    with True Cons.prems
    have "availability_loop s (enumerate (Suc k) rest)
            (if int (available_machines (items s) (resource_names s ! k)) < need
             then Some AVAILABILITY else fc) = Inr a"
      by (simp add: subscript_nat)
    from Cons.IH [OF this] True show ?thesis
      by (auto simp: ex_less_Suc_split)
  qed
qed

lemma availability_check_char:
  "availability_constraint_check s needs = Inr a \<Longrightarrow>
   a = (if \<exists>r<length needs. 0 < needs ! r \<and>
              int (available_machines (items s) (resource_names s ! r)) < needs ! r
        then Some AVAILABILITY else None)"
  using availability_loop_char [of s 0 needs None a]
  by (simp add: availability_constraint_check_def)

lemma availability_get_requests:
  "availability_loop s (enumerate k needs) fc = Inr a \<Longrightarrow>
   \<exists>gs. get_requests (resource_names s) (enumerate k needs) = Inr gs"
proof (induction needs arbitrary: k fc)
  case Nil
  then show ?case by simp
next
  case (Cons need rest)
  then show ?case
    by (fastforce simp: subscript_nat split: if_splits)
qed

lemma compatibility_loop_char:
  "compatibility_loop active cs =
   (if \<exists>c\<in>set cs. (product_id c, activity_id c) \<in> set active then Some COMPATIBILITY else None)"
  by (induction cs) auto

lemma activity_processing_requested:
  assumes "pid < length (procs s)" and "p_pc (procs s ! pid) = Requested"
    and "constraint_check s (p_needs (procs s ! pid)) (p_product_index (procs s ! pid))
           (p_activity_id (procs s ! pid)) = Inr (c, s1)"
  shows "c = None \<Longrightarrow> \<exists>gs.
           get_requests (resource_names s) (enumerate 0 (p_needs (procs s ! pid))) = Inr gs \<and>
           activity_processing pid s =
             Inr (set_proc pid ((procs s ! pid)\<lparr>request_time := now s, p_resources := [],
                                  p_pc := Acquiring gs\<rparr>) (s\<lparr>failure_code := None\<rparr>))"
    and "c \<noteq> None \<Longrightarrow>
           activity_processing pid s =
             Inr (set_proc pid ((procs s ! pid)\<lparr>request_time := now s, p_pc := Rejected\<rparr>)
                    (s\<lparr>failure_code := c,
                       signalled := signalled s @
                         [(p_product_index (procs s ! pid), p_activity_id (procs s ! pid), now s, c)],
                       nr_clashes := nr_clashes s + 1\<rparr>))"
proof -
  from assms(3) have s1: "s1 = s\<lparr>failure_code := c\<rparr>"
    by (rule constraint_check_frame)
  {
    assume "c = None"
    from assms(3) obtain a where "availability_constraint_check s (p_needs (procs s ! pid)) = Inr a"
      by (auto simp: constraint_check_def split: sum.splits)
    then obtain gs where gs: "get_requests (resource_names s) (enumerate 0 (p_needs (procs s ! pid))) = Inr gs"
      using availability_get_requests [of s 0 "p_needs (procs s ! pid)" None a]
      by (auto simp: availability_constraint_check_def)
    with assms \<open>c = None\<close> s1
    show "\<exists>gs.
           get_requests (resource_names s) (enumerate 0 (p_needs (procs s ! pid))) = Inr gs \<and>
           activity_processing pid s =
             Inr (set_proc pid ((procs s ! pid)\<lparr>request_time := now s, p_resources := [],
                                  p_pc := Acquiring gs\<rparr>) (s\<lparr>failure_code := None\<rparr>))"
      by (simp add: activity_processing_def Let_def)
  }
  {
    assume "c \<noteq> None"
    with assms s1
    show "activity_processing pid s =
             Inr (set_proc pid ((procs s ! pid)\<lparr>request_time := now s, p_pc := Rejected\<rparr>)
                    (s\<lparr>failure_code := c,
                       signalled := signalled s @
                         [(p_product_index (procs s ! pid), p_activity_id (procs s ! pid), now s, c)],
                       nr_clashes := nr_clashes s + 1\<rparr>))"
      by (auto simp: activity_processing_def Let_def)
  }
qed

lemmas example_defs =
  example_product_def example_plan_def example_initial_def example_started_def new_process_def
  sentinel_def

lemmas model_defs =
  initial_def subscript_def activity_processing_def constraint_check_def
  availability_constraint_check_def precedence_constraint_check_def
  compatibility_constraint_check_def fetch_latest_entry_def log_activity_def
  available_machines_def store_get_def set_proc_def enumerate_eq_zip Let_def

lemma initial_example: "initial (example_plan rel) = Inr (example_initial rel)"
  by (simp add: example_defs model_defs upt_rec)

lemma run_example_started:
  "run [Dispatch 0 0 4 [1, 0], Resume 0, Resume 0, Resume 0, Tick (nat t), Dispatch a 0 5 [0, 1]]
     (example_initial rel) = Inr (example_started rel (int (nat t)) a)"
  by (simp add: example_defs model_defs upt_rec)

text \<open>
  No path through the constraint check produces MIN\_LAG: the precedence check returns
  PRECEDENCE, MAX\_LAG or no code.
\<close>

lemma precedence_loop_codes:
  "precedence_loop s product product_index act_id preds = Inr (c, s1) \<Longrightarrow>
   c = None \<or> c = Some PRECEDENCE \<or> c = Some MAX_LAG"
proof (induction preds arbitrary: s)
  case Nil
  then show ?case by simp
next
  case (Cons pred_activity_id rest)
  then show ?case
    by (auto split: option.splits if_splits)
qed

lemma constraint_check_never_min_lag:
  assumes "constraint_check s needs product_index act_id = Inr (c, s')"
  shows "c \<noteq> Some MIN_LAG"
proof
  assume c: "c = Some MIN_LAG"
  from assms obtain a where a: "availability_constraint_check s needs = Inr a"
    by (auto simp: constraint_check_def split: sum.splits)
  from availability_check_char [OF a] have "a = None \<or> a = Some AVAILABILITY"
    by (simp split: if_splits)
  with assms a c obtain p s1 where a': "a = None"
    and p: "precedence_constraint_check s product_index act_id = Inr (p, s1)"
    by (auto simp: constraint_check_def split: sum.splits)
  from p have "p = None \<or> p = Some PRECEDENCE \<or> p = Some MAX_LAG"
    by (auto simp: precedence_constraint_check_def split: sum.splits option.splits
             dest: precedence_loop_codes)
  with assms a a' p c show False
    by (auto simp: constraint_check_def compatibility_constraint_check_def compatibility_loop_char
             split: sum.splits option.splits if_splits)
qed

text \<open>
  Claim C1 (a min-lag violation is reported as MIN\_LAG and the activity is rejected)
  does not hold of the code. In the example, activity 2 is dispatched at time 1, its
  predecessor started at time 0 and the minimum lag is 5. The precedence check writes
  MIN\_LAG into the logger and returns no code; the assignment of line 98 then stores
  the value of the whole expression, which is no code. The activity takes the mixer
  and logs its START at time 1; no clash is counted and the operator hears nothing.
\<close>

theorem min_lag_violation_is_not_rejected:
  "fetch_latest_entry (example_started \<lparr>min_lag = 5, max_lag = None\<rparr> 1 2) 0 0 START =
     Some \<lparr>log_product_id = 0, log_activity_id = 0, log_product_index = 0,
            log_action = START, timestamp = 0\<rparr> \<and>
   now (example_started \<lparr>min_lag = 5, max_lag = None\<rparr> 1 2) = 1 \<and>
   precedence_constraint_check (example_started \<lparr>min_lag = 5, max_lag = None\<rparr> 1 2) 0 2 =
     Inr (None, (example_started \<lparr>min_lag = 5, max_lag = None\<rparr> 1 2)\<lparr>failure_code := Some MIN_LAG\<rparr>) \<and>
   constraint_check (example_started \<lparr>min_lag = 5, max_lag = None\<rparr> 1 2) [0, 1] 0 2 =
     Inr (None, example_started \<lparr>min_lag = 5, max_lag = None\<rparr> 1 2) \<and>
   run [Resume 1, Resume 1, Resume 1] (example_started \<lparr>min_lag = 5, max_lag = None\<rparr> 1 2) =
     Inr ((example_started \<lparr>min_lag = 5, max_lag = None\<rparr> 1 2)
            \<lparr>items := [],
             entries := entries (example_started \<lparr>min_lag = 5, max_lag = None\<rparr> 1 2) @
               [\<lparr>log_product_id = 0, log_activity_id = 2, log_product_index = 0,
                 log_action = START, timestamp = 1\<rparr>],
             active_processes := [(0, 0), (0, 2)],
             procs := [procs (example_started \<lparr>min_lag = 5, max_lag = None\<rparr> 1 2) ! 0,
                       (new_process 2 0 5 [0, 1])
                         \<lparr>p_pc := Running,
                          p_resources := [\<lparr>resource_group = ''Mixer'', machine_id = 0\<rparr>],
                          request_time := 1, retrieve_time := 1, start_time := 1\<rparr>]\<rparr>)"
  by (simp add: example_defs model_defs upt_rec)

text \<open>
  Claim C8 (MAX\_LAG is yielded whenever the elapsed time exceeds a defined maximum
  lag, also a maximum lag of 0) does not hold of the code. With a maximum lag of 0 and
  an elapsed time of 3 the precedence check returns no code, because line 64 tests the
  truth value of \<^verbatim>\<open>temp_rel.max_lag\<close>; with a maximum lag of 1 the same
  state yields MAX\_LAG.
\<close>

theorem max_lag_zero_is_ignored:
  "precedence_constraint_check (example_started \<lparr>min_lag = 0, max_lag = Some 0\<rparr> 3 2) 0 2 =
     Inr (None, example_started \<lparr>min_lag = 0, max_lag = Some 0\<rparr> 3 2) \<and>
   precedence_constraint_check (example_started \<lparr>min_lag = 0, max_lag = Some 1\<rparr> 3 2) 0 2 =
     Inr (Some MAX_LAG, example_started \<lparr>min_lag = 0, max_lag = Some 1\<rparr> 3 2)"
  by (simp add: example_defs model_defs upt_rec)




lemma run_example_conflict:
  "initial (example_conflict_plan rel) = Inr ((example_initial rel)\<lparr>plan := example_conflict_plan rel\<rparr>) \<and>
   run [Dispatch 0 0 4 [1, 0], Resume 0, Resume 0, Resume 0, Tick (nat t), Dispatch 2 0 5 [0, 1]]
     ((example_initial rel)\<lparr>plan := example_conflict_plan rel\<rparr>) =
     Inr (example_conflict rel (int (nat t)))"
  by (simp add: example_conflict_plan_def example_conflict_def example_defs model_defs upt_rec)

text \<open>
  Claim C3 (the code of the first check that is not satisfied is the one produced, and
  only an activity that satisfies all three goes on to acquire resources) does not hold
  of the code. In the example activity 2 is dispatched at time 1, its predecessor
  started at time 0 and the minimum lag is 5, so the precedence check is not
  satisfied; availability and compatibility pass. No code is produced and the process
  goes on to request the mixer. When activity 2 also conflicts with the running
  activity 0, the code produced is COMPATIBILITY, the code of the later check. Both
  come from the defect of claim C1: the min-lag branch returns no code.
\<close>

theorem unsatisfied_precedence_is_passed_over:
  "availability_constraint_check (example_started \<lparr>min_lag = 5, max_lag = None\<rparr> 1 2) [0, 1] = Inr None \<and>
   predecessors (example_product \<lparr>min_lag = 5, max_lag = None\<rparr>) 2 = Some [0] \<and>
   temporal_relations (example_product \<lparr>min_lag = 5, max_lag = None\<rparr>) (0, 2) =
     Some \<lparr>min_lag = 5, max_lag = None\<rparr> \<and>
   map timestamp (entries (example_started \<lparr>min_lag = 5, max_lag = None\<rparr> 1 2)) = [0] \<and>
   now (example_started \<lparr>min_lag = 5, max_lag = None\<rparr> 1 2) = 1 \<and>
   compatibility_constraint_check (example_started \<lparr>min_lag = 5, max_lag = None\<rparr> 1 2) 0 2 = Inr None \<and>
   constraint_check (example_started \<lparr>min_lag = 5, max_lag = None\<rparr> 1 2) [0, 1] 0 2 =
     Inr (None, example_started \<lparr>min_lag = 5, max_lag = None\<rparr> 1 2) \<and>
   activity_processing 1 (example_started \<lparr>min_lag = 5, max_lag = None\<rparr> 1 2) =
     Inr ((example_started \<lparr>min_lag = 5, max_lag = None\<rparr> 1 2)
            \<lparr>procs := [procs (example_started \<lparr>min_lag = 5, max_lag = None\<rparr> 1 2) ! 0,
                       (new_process 2 0 5 [0, 1])
                         \<lparr>p_pc := Acquiring [''Mixer''], request_time := 1\<rparr>]\<rparr>) \<and>
   now (example_conflict \<lparr>min_lag = 5, max_lag = None\<rparr> 1) = 1 \<and>
   map timestamp (entries (example_conflict \<lparr>min_lag = 5, max_lag = None\<rparr> 1)) = [0] \<and>
   availability_constraint_check (example_conflict \<lparr>min_lag = 5, max_lag = None\<rparr> 1) [0, 1] = Inr None \<and>
   precedence_constraint_check (example_conflict \<lparr>min_lag = 5, max_lag = None\<rparr> 1) 0 2 =
     Inr (None, (example_conflict \<lparr>min_lag = 5, max_lag = None\<rparr> 1)\<lparr>failure_code := Some MIN_LAG\<rparr>) \<and>
   compatibility_constraint_check (example_conflict \<lparr>min_lag = 5, max_lag = None\<rparr> 1) 0 2 =
     Inr (Some COMPATIBILITY) \<and>
   constraint_check (example_conflict \<lparr>min_lag = 5, max_lag = None\<rparr> 1) [0, 1] 0 2 =
     Inr (Some COMPATIBILITY,
          (example_conflict \<lparr>min_lag = 5, max_lag = None\<rparr> 1)\<lparr>failure_code := Some COMPATIBILITY\<rparr>)"
  by (simp add: example_conflict_plan_def example_conflict_def example_defs model_defs upt_rec)

text \<open>
  Claim C4: when the constraint check of a dispatched activity yields a failure code,
  the resumption ends in \<open>Rejected\<close>: the operator receives the product index, the
  activity id, the current time and the code, the clash counter grows by one, and the
  pool, the log, the active set and the resource usage are unchanged; the process holds
  no resource and never runs again.
\<close>

theorem rejected_transition:
  assumes "pid < length (procs s)"
    and "p_pc (procs s ! pid) = Requested"
    and "constraint_check s (p_needs (procs s ! pid)) (p_product_index (procs s ! pid))
           (p_activity_id (procs s ! pid)) = Inr (Some code, s1)"
  shows "\<exists>s2. activity_processing pid s = Inr s2 \<and>
           signalled s2 = signalled s @
             [(p_product_index (procs s ! pid), p_activity_id (procs s ! pid), now s, Some code)] \<and>
           nr_clashes s2 = nr_clashes s + 1 \<and>
           items s2 = items s \<and>
           entries s2 = entries s \<and>
           active_processes s2 = active_processes s \<and>
           resource_usage s2 = resource_usage s \<and>
           p_pc (procs s2 ! pid) = Rejected \<and>
           p_resources (procs s2 ! pid) = p_resources (procs s ! pid) \<and>
           activity_processing pid s2 = Inr s2"
proof -
  have "activity_processing pid s =
          Inr (set_proc pid ((procs s ! pid)\<lparr>request_time := now s, p_pc := Rejected\<rparr>)
                 (s\<lparr>failure_code := Some code,
                    signalled := signalled s @
                      [(p_product_index (procs s ! pid), p_activity_id (procs s ! pid), now s, Some code)],
                    nr_clashes := nr_clashes s + 1\<rparr>))"
    using activity_processing_requested(2) [OF assms] by simp
  with assms(1) show ?thesis
    by (simp add: set_proc_def activity_processing_def)
qed

text \<open>
  Claim C4 at the example: activity 2 is dispatched at time 3 against a maximum lag
  of 2 and is rejected with MAX\_LAG; its row is still the placeholder.
\<close>

theorem rejected_transition_witness:
  "1 < length (procs (example_started \<lparr>min_lag = 0, max_lag = Some 2\<rparr> 3 2)) \<and>
   p_pc (procs (example_started \<lparr>min_lag = 0, max_lag = Some 2\<rparr> 3 2) ! 1) = Requested \<and>
   constraint_check (example_started \<lparr>min_lag = 0, max_lag = Some 2\<rparr> 3 2) [0, 1] 0 2 =
     Inr (Some MAX_LAG, (example_started \<lparr>min_lag = 0, max_lag = Some 2\<rparr> 3 2)\<lparr>failure_code := Some MAX_LAG\<rparr>) \<and>
   (\<exists>s2. activity_processing 1 (example_started \<lparr>min_lag = 0, max_lag = Some 2\<rparr> 3 2) = Inr s2 \<and>
         signalled s2 = [(0, 2, 3, Some MAX_LAG)] \<and> nr_clashes s2 = 1 \<and>
         items s2 = [\<lparr>resource_group = ''Mixer'', machine_id = 0\<rparr>] \<and>
         length (entries s2) = 1 \<and>
         map_of (resource_usage s2) (0, 2) = Some (sentinel 0 2))"
proof -
  have l: "1 < length (procs (example_started \<lparr>min_lag = 0, max_lag = Some 2\<rparr> 3 2))"
    by (simp add: example_defs)
  have q: "p_pc (procs (example_started \<lparr>min_lag = 0, max_lag = Some 2\<rparr> 3 2) ! 1) = Requested"
    by (simp add: example_defs)
  have c: "constraint_check (example_started \<lparr>min_lag = 0, max_lag = Some 2\<rparr> 3 2) [0, 1] 0 2 =
     Inr (Some MAX_LAG, (example_started \<lparr>min_lag = 0, max_lag = Some 2\<rparr> 3 2)\<lparr>failure_code := Some MAX_LAG\<rparr>)"
    by (simp add: example_defs model_defs upt_rec)
  have c': "constraint_check (example_started \<lparr>min_lag = 0, max_lag = Some 2\<rparr> 3 2)
              (p_needs (procs (example_started \<lparr>min_lag = 0, max_lag = Some 2\<rparr> 3 2) ! 1))
              (p_product_index (procs (example_started \<lparr>min_lag = 0, max_lag = Some 2\<rparr> 3 2) ! 1))
              (p_activity_id (procs (example_started \<lparr>min_lag = 0, max_lag = Some 2\<rparr> 3 2) ! 1)) =
     Inr (Some MAX_LAG, (example_started \<lparr>min_lag = 0, max_lag = Some 2\<rparr> 3 2)\<lparr>failure_code := Some MAX_LAG\<rparr>)"
    by (simp add: example_defs model_defs upt_rec)
  from rejected_transition [OF l q c']
  obtain s2 where "activity_processing 1 (example_started \<lparr>min_lag = 0, max_lag = Some 2\<rparr> 3 2) = Inr s2"
    and "signalled s2 = signalled (example_started \<lparr>min_lag = 0, max_lag = Some 2\<rparr> 3 2) @
           [(p_product_index (procs (example_started \<lparr>min_lag = 0, max_lag = Some 2\<rparr> 3 2) ! 1),
             p_activity_id (procs (example_started \<lparr>min_lag = 0, max_lag = Some 2\<rparr> 3 2) ! 1),
             now (example_started \<lparr>min_lag = 0, max_lag = Some 2\<rparr> 3 2), Some MAX_LAG)]"
    and "nr_clashes s2 = nr_clashes (example_started \<lparr>min_lag = 0, max_lag = Some 2\<rparr> 3 2) + 1"
    and "items s2 = items (example_started \<lparr>min_lag = 0, max_lag = Some 2\<rparr> 3 2)"
    and "entries s2 = entries (example_started \<lparr>min_lag = 0, max_lag = Some 2\<rparr> 3 2)"
    and "resource_usage s2 = resource_usage (example_started \<lparr>min_lag = 0, max_lag = Some 2\<rparr> 3 2)"
    by blast
  then have "activity_processing 1 (example_started \<lparr>min_lag = 0, max_lag = Some 2\<rparr> 3 2) = Inr s2 \<and>
         signalled s2 = [(0, 2, 3, Some MAX_LAG)] \<and> nr_clashes s2 = 1 \<and>
         items s2 = [\<lparr>resource_group = ''Mixer'', machine_id = 0\<rparr>] \<and>
         length (entries s2) = 1 \<and>
         map_of (resource_usage s2) (0, 2) = Some (sentinel 0 2)"
    by (simp add: example_defs)
  then have "\<exists>s2. activity_processing 1 (example_started \<lparr>min_lag = 0, max_lag = Some 2\<rparr> 3 2) = Inr s2 \<and>
         signalled s2 = [(0, 2, 3, Some MAX_LAG)] \<and> nr_clashes s2 = 1 \<and>
         items s2 = [\<lparr>resource_group = ''Mixer'', machine_id = 0\<rparr>] \<and>
         length (entries s2) = 1 \<and>
         map_of (resource_usage s2) (0, 2) = Some (sentinel 0 2)"
    by (rule exI)
  with l q c show ?thesis by simp
qed

section \<open>Properties of the results\<close>

lemma set_finite_values: "set (finite_values xs) = {i. Finite i \<in> set xs}"
  by (induction xs rule: finite_values.induct) auto

lemma py_max_Max:
  assumes "xs \<noteq> []"
  shows "py_max xs = Inr (Max (set xs))"
proof (cases xs)
  case Nil
  with assms show ?thesis by simp
next
  case (Cons a list)
  with Max.set_eq_fold [of a list] show ?thesis by simp
qed

lemma fold_max_number:
  "fold (\<lambda>y acc. max_number acc y) xs x = maximum_finish (x # xs)"
proof (induction xs arbitrary: x)
  case Nil
  show ?case by (cases x) (simp_all add: maximum_finish_def)
next
  case (Cons y ys)
  have "maximum_finish (max_number x y # ys) = maximum_finish (x # y # ys)"
  proof (cases x)
    case Infinite
    then show ?thesis by (simp add: maximum_finish_def)
  next
    case (Finite a)
    note x = Finite
    show ?thesis
    proof (cases y)
      case Infinite
      with x show ?thesis by (simp add: maximum_finish_def)
    next
      case (Finite b)
      have "Max (insert (max a b) (set (finite_values ys))) =
            Max (insert a (insert b (set (finite_values ys))))"
        by (cases "set (finite_values ys) = {}") (simp_all add: max.assoc)
      with x Finite show ?thesis by (simp add: maximum_finish_def)
    qed
  qed
  with Cons.IH [of "max_number x y"] show ?case by simp
qed

lemma py_max_number_maximum: "xs \<noteq> [] \<Longrightarrow> py_max_number xs = Inr (maximum_finish xs)"
  by (cases xs) (simp_all add: fold_max_number)

lemma products_loop_sum:
  assumes "\<forall>p\<in>set idx. filter (\<lambda>row. ProductIndex row = int p) rows \<noteq> []"
  shows "products_loop ps rows idx lateness nr =
         Inr (lateness + (\<Sum>p\<leftarrow>idx. case product_finish rows p of
                                     Infinite \<Rightarrow> 0
                                   | Finite finish \<Rightarrow> max 0 (finish - deadline (ps ! p))),
              nr + int (length (filter (\<lambda>p. product_finish rows p = Infinite) idx)))"
  using assms
proof (induction idx arbitrary: lateness nr)
  case Nil
  show ?case by simp
next
  case (Cons p rest)
  from Cons.prems have ne: "map Finish (filter (\<lambda>row. ProductIndex row = int p) rows) \<noteq> []"
    by simp
  have pm: "py_max_number (map Finish (filter (\<lambda>row. ProductIndex row = int p) rows)) =
        Inr (product_finish rows p)"
    using py_max_number_maximum [OF ne] by (simp add: product_finish_def)
  from Cons.prems have rest: "\<forall>p\<in>set rest. filter (\<lambda>row. ProductIndex row = int p) rows \<noteq> []"
    by simp
  show ?case
  proof (cases "product_finish rows p")
    case Infinite
    with pm Cons.IH [OF rest, of lateness "nr + 1"] show ?thesis by simp
  next
    case (Finite f)
    with pm Cons.IH [OF rest, of "lateness + max 0 (f - deadline (ps ! p))" nr] show ?thesis
      by simp
  qed
qed

lemma activity_processing_static:
  "activity_processing pid s = Inr s' \<Longrightarrow>
   plan s' = plan s \<and> resource_names s' = resource_names s \<and> capacity s' = capacity s \<and>
   store_capacity s' = store_capacity s"
  by (auto simp: activity_processing_def Let_def set_proc_def log_activity_def
           split: pc.splits list.splits sum.splits option.splits prod.splits if_splits
           dest!: constraint_check_frame)

lemma step_static:
  "step e s = Inr s' \<Longrightarrow>
   plan s' = plan s \<and> resource_names s' = resource_names s \<and> capacity s' = capacity s \<and>
   store_capacity s' = store_capacity s"
  by (cases e) (auto dest: activity_processing_static)

lemma run_static:
  "run es s = Inr s' \<Longrightarrow>
   plan s' = plan s \<and> resource_names s' = resource_names s \<and> capacity s' = capacity s \<and>
   store_capacity s' = store_capacity s"
proof (induction es arbitrary: s)
  case Nil
  then show ?case by simp
next
  case (Cons e es)
  then obtain s1 where "step e s = Inr s1" and "run es s1 = Inr s'"
    by (auto split: sum.splits)
  with Cons.IH [of s1] step_static [of e s s1] show ?case by simp
qed

lemma initial_static:
  "initial pl = Inr s0 \<Longrightarrow>
   plan s0 = pl \<and> resource_names s0 = factory_resource_names pl \<and>
   capacity s0 = factory_capacity pl \<and> store_capacity s0 = sum_list (factory_capacity pl)"
  by (auto simp: initial_def split: if_splits sum.splits)

lemmas example_defs2 = example_schedule_def example_table_def example_final_def output_table_def example_defs

lemma example_run_final:
  "run example_schedule (example_initial \<lparr>min_lag = 1, max_lag = None\<rparr>) = Inr example_final"
  by (simp add: example_defs2 model_defs upt_rec)

text \<open>
  On a run in which some activity has completed and every product has a row,
  \<^verbatim>\<open>simulate\<close> returns the table together with the triple of the makespan (the
  maximum of the finite \<^verbatim>\<open>Finish\<close> values), the sum over the products with a finite
  finish of \<open>max 0 (finish - deadline)\<close>, and the number of products whose finish is
  infinite.
\<close>

lemma simulate_returns_triple:
  assumes "initial pl = Inr s0" and "run schedule s0 = Inr s"
    and "finite_values (map Finish (output_table s)) \<noteq> []"
    and "\<forall>p<length (products pl). filter (\<lambda>row. ProductIndex row = int p) (output_table s) \<noteq> []"
  shows "simulate pl schedule =
         Inr (output_table s,
              Max (set (finite_values (map Finish (output_table s)))),
              (\<Sum>p\<leftarrow>[0..<length (products pl)].
                  case product_finish (output_table s) p of
                    Infinite \<Rightarrow> 0
                  | Finite finish \<Rightarrow> max 0 (finish - deadline (products pl ! p))),
              int (length (filter (\<lambda>p. product_finish (output_table s) p = Infinite)
                             [0..<length (products pl)])))"
proof -
  from assms(1,2) have pl: "plan s = pl"
    using initial_static [of pl s0] run_static [of schedule s0 s] by simp
  from assms(3) have rows: "output_table s \<noteq> []" by auto
  have mk: "makespan (output_table s) =
              Inr (Max (set (finite_values (map Finish (output_table s)))))"
    using py_max_Max [OF assms(3)] rows by (simp add: makespan_def)
  from assms(4)
  have "\<forall>p\<in>set [0..<length (products pl)].
          filter (\<lambda>row. ProductIndex row = int p) (output_table s) \<noteq> []"
    by simp
  from products_loop_sum [OF this, of "products pl" 0 0] mk pl assms(1,2) show ?thesis
    by (simp add: simulate_def results_def)
qed

text \<open>
  At the example: the product finishes at 11 against a deadline of 8, so the triple is
  \<open>(11, 3, 0)\<close>.
\<close>

lemma simulate_returns_triple_example:
  "initial (example_plan \<lparr>min_lag = 1, max_lag = None\<rparr>) = Inr (example_initial \<lparr>min_lag = 1, max_lag = None\<rparr>) \<and>
   run example_schedule (example_initial \<lparr>min_lag = 1, max_lag = None\<rparr>) = Inr example_final \<and>
   finite_values (map Finish (output_table example_final)) \<noteq> [] \<and>
   length (products (example_plan \<lparr>min_lag = 1, max_lag = None\<rparr>)) = 1 \<and>
   filter (\<lambda>row. ProductIndex row = int 0) (output_table example_final) \<noteq> [] \<and>
   simulate (example_plan \<lparr>min_lag = 1, max_lag = None\<rparr>) example_schedule = Inr (example_table, 11, 3, 0)"
proof -
  have i: "initial (example_plan \<lparr>min_lag = 1, max_lag = None\<rparr>) = Inr (example_initial \<lparr>min_lag = 1, max_lag = None\<rparr>)"
    by (rule initial_example)
  have f: "finite_values (map Finish (output_table example_final)) \<noteq> []"
    by (simp add: example_defs2)
  have p: "\<forall>p<length (products (example_plan \<lparr>min_lag = 1, max_lag = None\<rparr>)).
       filter (\<lambda>row. ProductIndex row = int p) (output_table example_final) \<noteq> []"
    by (simp add: example_defs2)
  have t: "output_table example_final = example_table"
    by (simp add: example_defs2)
  have fin: "product_finish example_table 0 = Finite 11"
    by (simp add: product_finish_def maximum_finish_def example_table_def)
  have l: "length (products (example_plan \<lparr>min_lag = 1, max_lag = None\<rparr>)) = 1"
    by (simp add: example_defs2)
  have p0: "filter (\<lambda>row. ProductIndex row = int 0) (output_table example_final) \<noteq> []"
    by (simp add: example_defs2)
  from simulate_returns_triple [OF i example_run_final f p] i f l p0 t fin example_run_final
  show ?thesis
    by (simp add: example_table_def example_plan_def example_product_def)
qed

text \<open>
  Claim C5 (with no finite \<^verbatim>\<open>Finish\<close>, \<^verbatim>\<open>simulate\<close> reports a distinct state of
  its own) does not hold of the code. With the empty schedule, and with activity 0
  still in flight, no row has a finite \<^verbatim>\<open>Finish\<close> and \<^verbatim>\<open>simulate\<close> ends with the
  \<^verbatim>\<open>ValueError\<close> that \<^verbatim>\<open>max\<close> raises on the empty list of line 238. That outcome
  is not particular to the situation: a run in which all three activities completed,
  for a plan with a second product that has no rows, ends with the same
  \<^verbatim>\<open>ValueError\<close> (line 244).
\<close>

theorem no_completion_raises_value_error:
  "finite_values (map Finish (output_table (example_initial \<lparr>min_lag = 1, max_lag = None\<rparr>))) = [] \<and>
   simulate (example_plan \<lparr>min_lag = 1, max_lag = None\<rparr>) [] = Inl ValueError \<and>
   finite_values (map Finish (output_table (example_started \<lparr>min_lag = 1, max_lag = None\<rparr> 1 2))) = [] \<and>
   simulate (example_plan \<lparr>min_lag = 1, max_lag = None\<rparr>)
     [Dispatch 0 0 4 [1, 0], Resume 0, Resume 0, Resume 0, Tick 1, Dispatch 2 0 5 [0, 1]] =
     Inl ValueError \<and>
   run example_schedule
     ((example_initial \<lparr>min_lag = 1, max_lag = None\<rparr>)
        \<lparr>plan := (example_plan \<lparr>min_lag = 1, max_lag = None\<rparr>)
                   \<lparr>products := [example_product \<lparr>min_lag = 1, max_lag = None\<rparr>,
                                 example_product \<lparr>min_lag = 1, max_lag = None\<rparr>]\<rparr>\<rparr>) =
     Inr (example_final
            \<lparr>plan := (example_plan \<lparr>min_lag = 1, max_lag = None\<rparr>)
                       \<lparr>products := [example_product \<lparr>min_lag = 1, max_lag = None\<rparr>,
                                     example_product \<lparr>min_lag = 1, max_lag = None\<rparr>]\<rparr>\<rparr>) \<and>
   finite_values (map Finish (output_table example_final)) = [4, 9, 11] \<and>
   simulate
     ((example_plan \<lparr>min_lag = 1, max_lag = None\<rparr>)
        \<lparr>products := [example_product \<lparr>min_lag = 1, max_lag = None\<rparr>,
                      example_product \<lparr>min_lag = 1, max_lag = None\<rparr>]\<rparr>)
     example_schedule = Inl ValueError"
  by (simp add: simulate_def results_def makespan_def example_defs2 model_defs upt_rec)

text \<open>
  Claim C6 (an unfinished product is counted and the triple is returned) does not hold
  of the code when no product has finished. In the example, with activity 0 in flight
  at the end of the run, the finish of product 0 is infinite and the loop of lines 242
  to 254 would give lateness 0 and one unfinished product; but \<^verbatim>\<open>simulate\<close> ends
  with the \<^verbatim>\<open>ValueError\<close> of line 238 before it reaches the loop.
\<close>

theorem all_unfinished_raises_before_count:
  "run [Dispatch 0 0 4 [1, 0], Resume 0, Resume 0, Resume 0, Tick 1, Dispatch 2 0 5 [0, 1]]
     (example_initial \<lparr>min_lag = 1, max_lag = None\<rparr>) =
     Inr (example_started \<lparr>min_lag = 1, max_lag = None\<rparr> 1 2) \<and>
   map Finish (output_table (example_started \<lparr>min_lag = 1, max_lag = None\<rparr> 1 2)) =
     [Infinite, Infinite, Infinite] \<and>
   product_finish (output_table (example_started \<lparr>min_lag = 1, max_lag = None\<rparr> 1 2)) 0 = Infinite \<and>
   products_loop (products (example_plan \<lparr>min_lag = 1, max_lag = None\<rparr>))
     (output_table (example_started \<lparr>min_lag = 1, max_lag = None\<rparr> 1 2)) [0..<1] 0 0 = Inr (0, 1) \<and>
   simulate (example_plan \<lparr>min_lag = 1, max_lag = None\<rparr>)
     [Dispatch 0 0 4 [1, 0], Resume 0, Resume 0, Resume 0, Tick 1, Dispatch 2 0 5 [0, 1]] =
     Inl ValueError"
  by (simp add: simulate_def results_def makespan_def product_finish_def maximum_finish_def
        example_defs2 model_defs upt_rec)

section \<open>The capacity invariant\<close>

lemma count_list_const:
  "count_list (map (\<lambda>j. x) js) g = (if x = g then length js else 0)"
  by (induction js) auto

lemma subscript_Inr_nat: "subscript xs (int r) = Inr c \<Longrightarrow> c = xs ! r"
  by (simp add: subscript_nat split: if_splits)

lemma create_resources_count:
  "create_resources names cap rs = Inr its \<Longrightarrow>
   available_machines its g = (\<Sum>r\<leftarrow>rs. if names ! r = g then nat (cap ! r) else 0)"
proof (induction rs arbitrary: its)
  case Nil
  then show ?case by (simp add: available_machines_def)
next
  case (Cons r rs)
  from Cons.prems obtain c ms where c: "subscript cap (int r) = Inr c"
    and ms: "create_resources names cap rs = Inr ms"
    and its: "its = map (\<lambda>j. \<lparr>resource_group = names ! r, machine_id = int j\<rparr>) [0..<nat c] @ ms"
    by (auto split: sum.splits)
  from c have "c = cap ! r" by (rule subscript_Inr_nat)
  with Cons.IH [OF ms] its show ?case
    by (simp add: available_machines_def comp_def count_list_const)
qed

lemma sum_list_single_index:
  assumes "distinct names" and "r0 < length names"
  shows "(\<Sum>r\<leftarrow>[0..<length names]. if names ! r = names ! r0 then f r else 0) = (f r0 :: nat)"
proof -
  have "(\<Sum>r\<leftarrow>[0..<length names]. if names ! r = names ! r0 then f r else 0) =
        (\<Sum>r\<in>{0..<length names}. if names ! r = names ! r0 then f r else 0)"
    by (simp add: sum_list_distinct_conv_sum_set)
  also have "\<dots> = (\<Sum>r\<in>{0..<length names}. if r = r0 then f r else 0)"
    using assms by (intro sum.cong) (auto simp: nth_eq_iff_index_eq)
  also have "\<dots> = f r0"
    using assms(2) by simp
  finally show ?thesis .
qed

lemma initial_capacity:
  assumes "initial pl = Inr s0" and "distinct (factory_resource_names pl)"
    and "r < length (factory_resource_names pl)"
  shows "available_machines (items s0) (factory_resource_names pl ! r) = nat (factory_capacity pl ! r)"
    and "procs s0 = []"
proof -
  from assms(1) obtain its where
    its: "create_resources (factory_resource_names pl) (factory_capacity pl)
            [0..<length (factory_resource_names pl)] = Inr its"
    and s0: "items s0 = its" "procs s0 = []"
    by (auto simp: initial_def split: if_splits sum.splits)
  from create_resources_count [OF its] sum_list_single_index [OF assms(2,3)] s0
  show "available_machines (items s0) (factory_resource_names pl ! r) = nat (factory_capacity pl ! r)"
    by simp
  from s0 show "procs s0 = []" by simp
qed

lemma count_remove1:
  "x \<in> set xs \<Longrightarrow>
   count_list (map f (remove1 x xs)) y + (if f x = y then 1 else 0) = count_list (map f xs) y"
  by (induction xs) auto

lemma store_get_count:
  assumes "store_get g its = Some (m, its')"
  shows "available_machines its' h + available_machines [m] h = available_machines its h"
proof -
  from assms have "find (\<lambda>i. resource_group i = g) its = Some m" and "its' = remove1 m its"
    by (auto simp: store_get_def split: option.splits)
  then have "m \<in> set its"
    by (auto simp: find_Some_iff)
  from count_remove1 [OF this, of resource_group h] \<open>its' = remove1 m its\<close> show ?thesis
    by (auto simp: available_machines_def split: if_splits)
qed

lemma sum_list_update_nat:
  "pid < length ps \<Longrightarrow>
   (\<Sum>p\<leftarrow>ps[pid := q]. h p) + h (ps ! pid) = (\<Sum>p\<leftarrow>ps. h p) + (h q :: nat)"
proof (induction ps arbitrary: pid)
  case Nil
  then show ?case by simp
next
  case (Cons p ps)
  then show ?case by (cases pid) auto
qed

lemma total_set_proc:
  assumes "pid < length (procs s)" and "procs s1 = procs s"
    and "available_machines (items s1) g + available_machines (held q) g =
         available_machines (items s) g + available_machines (held (procs s ! pid)) g"
  shows "available_machines (items (set_proc pid q s1)) g + in_use (set_proc pid q s1) g =
         available_machines (items s) g + in_use s g"
proof -
  from sum_list_update_nat [OF assms(1), of "\<lambda>p. available_machines (held p) g" q] assms(2)
  have "in_use (set_proc pid q s1) g + available_machines (held (procs s ! pid)) g =
        in_use s g + available_machines (held q) g"
    by (simp add: in_use_def set_proc_def)
  with assms(3) show ?thesis
    by (simp add: set_proc_def)
qed

lemma activity_processing_total:
  assumes "activity_processing pid s = Inr s'"
  shows "available_machines (items s') g + in_use s' g =
         available_machines (items s) g + in_use s g"
proof (cases "pid < length (procs s)")
  case False
  with assms show ?thesis by (simp add: activity_processing_def)
next
  case True
  note pid = True
  show ?thesis
  proof (cases "p_pc (procs s ! pid)")
    case Requested
    from assms pid Requested obtain c s1 where
      chk: "constraint_check s (p_needs (procs s ! pid)) (p_product_index (procs s ! pid))
              (p_activity_id (procs s ! pid)) = Inr (c, s1)"
      by (auto simp: activity_processing_def Let_def split: sum.splits)
    show ?thesis
    proof (cases "c = None")
      case True
      from activity_processing_requested(1) [OF pid Requested chk True] assms
      obtain gs where "s' = set_proc pid ((procs s ! pid)\<lparr>request_time := now s, p_resources := [],
                                  p_pc := Acquiring gs\<rparr>) (s\<lparr>failure_code := None\<rparr>)"
        by auto
      with total_set_proc [OF pid, of "s\<lparr>failure_code := None\<rparr>" g] Requested show ?thesis
        by (simp add: held_def available_machines_def)
    next
      case False
      from activity_processing_requested(2) [OF pid Requested chk False] assms
      have "s' = set_proc pid ((procs s ! pid)\<lparr>request_time := now s, p_pc := Rejected\<rparr>)
                    (s\<lparr>failure_code := c,
                       signalled := signalled s @
                         [(p_product_index (procs s ! pid), p_activity_id (procs s ! pid), now s, c)],
                       nr_clashes := nr_clashes s + 1\<rparr>)"
        by simp
      with total_set_proc [OF pid, of "s\<lparr>failure_code := c,
                       signalled := signalled s @
                         [(p_product_index (procs s ! pid), p_activity_id (procs s ! pid), now s, c)],
                       nr_clashes := nr_clashes s + 1\<rparr>" g] Requested show ?thesis
        by (simp add: held_def available_machines_def)
    qed
  next
    case (Acquiring gs)
    show ?thesis
    proof (cases gs)
      case Nil
      with assms pid Acquiring obtain product where
        sub: "subscript (products (plan s)) (p_product_index (procs s ! pid)) = Inr product"
        and "\<not> p_proc_time (procs s ! pid) < 0"
        by (auto simp: activity_processing_def Let_def split: sum.splits if_splits)
      with assms pid Acquiring Nil
      have "s' = set_proc pid ((procs s ! pid)\<lparr>retrieve_time := now s, start_time := now s, p_pc := Running\<rparr>)
                (log_activity (ident product) (p_activity_id (procs s ! pid))
                   (p_product_index (procs s ! pid)) START (now s) s)"
        by (simp add: activity_processing_def Let_def)
      with total_set_proc [OF pid, of "log_activity (ident product) (p_activity_id (procs s ! pid))
                   (p_product_index (procs s ! pid)) START (now s) s" g] Acquiring show ?thesis
        by (simp add: held_def log_activity_def)
    next
      case (Cons h hs)
      show ?thesis
      proof (cases "store_get h (items s)")
        case None
        with assms pid Acquiring Cons show ?thesis
          by (simp add: activity_processing_def Let_def)
      next
        case (Some r)
        obtain m its where r: "r = (m, its)" by (cases r)
        with assms pid Acquiring Cons Some
        have s': "s' = set_proc pid ((procs s ! pid)\<lparr>p_resources := p_resources (procs s ! pid) @ [m],
                                       p_pc := Acquiring hs\<rparr>) (s\<lparr>items := its\<rparr>)"
          by (simp add: activity_processing_def Let_def)
        from store_get_count [of h "items s" m its g] Some r
        have "available_machines its g + available_machines [m] g = available_machines (items s) g"
          by simp
        with total_set_proc [OF pid, of "s\<lparr>items := its\<rparr>" g] Acquiring s' show ?thesis
          by (simp add: held_def available_machines_def)
      qed
    qed
  next
    case Running
    show ?thesis
    proof (cases "now s = start_time (procs s ! pid) + p_proc_time (procs s ! pid)")
      case False
      with assms pid Running show ?thesis
        by (simp add: activity_processing_def Let_def)
    next
      case True
      with assms pid Running obtain product where
        sub: "subscript (products (plan s)) (p_product_index (procs s ! pid)) = Inr product"
        by (auto simp: activity_processing_def Let_def split: sum.splits)
      with assms pid Running True
      have "s' = set_proc pid ((procs s ! pid)\<lparr>end_time := now s,
                               p_pc := Releasing (p_resources (procs s ! pid))\<rparr>)
                (log_activity (ident product) (p_activity_id (procs s ! pid))
                   (p_product_index (procs s ! pid)) END (now s) s)"
        by (simp add: activity_processing_def Let_def)
      with total_set_proc [OF pid, of "log_activity (ident product) (p_activity_id (procs s ! pid))
                   (p_product_index (procs s ! pid)) END (now s) s" g] Running show ?thesis
        by (simp add: held_def log_activity_def)
    qed
  next
    case (Releasing ms)
    show ?thesis
    proof (cases ms)
      case Nil
      with assms pid Releasing
      have "\<exists>ru. s' = set_proc pid ((procs s ! pid)\<lparr>p_pc := Completed\<rparr>) (s\<lparr>resource_usage := ru\<rparr>)"
        by (auto simp: activity_processing_def Let_def)
      then obtain ru where
        "s' = set_proc pid ((procs s ! pid)\<lparr>p_pc := Completed\<rparr>) (s\<lparr>resource_usage := ru\<rparr>)"
        by blast
      with total_set_proc [OF pid, of "s\<lparr>resource_usage := ru\<rparr>" g] Releasing Nil show ?thesis
        by (simp add: held_def)
    next
      case (Cons m ms')
      show ?thesis
      proof (cases "int (length (items s)) < store_capacity s")
        case False
        with assms pid Releasing Cons show ?thesis
          by (simp add: activity_processing_def Let_def)
      next
        case True
        with assms pid Releasing Cons
        have "s' = set_proc pid ((procs s ! pid)\<lparr>p_pc := Releasing ms'\<rparr>) (s\<lparr>items := items s @ [m]\<rparr>)"
          by (simp add: activity_processing_def Let_def)
        with total_set_proc [OF pid, of "s\<lparr>items := items s @ [m]\<rparr>" g] Releasing Cons show ?thesis
          by (simp add: held_def available_machines_def)
      qed
    qed
  next
    case Completed
    with assms pid show ?thesis by (simp add: activity_processing_def Let_def)
  next
    case Rejected
    with assms pid show ?thesis by (simp add: activity_processing_def Let_def)
  qed
qed

lemma step_total:
  assumes "step e s = Inr s'"
  shows "available_machines (items s') g + in_use s' g =
         available_machines (items s) g + in_use s g"
proof (cases e)
  case (Dispatch act_id product_index proc_time needs)
  with assms show ?thesis
    by (auto simp: in_use_def held_def new_process_def available_machines_def)
next
  case (Resume pid)
  with assms activity_processing_total [of pid s s' g] show ?thesis by simp
next
  case (Tick d)
  with assms show ?thesis by (auto simp: in_use_def)
qed

lemma run_total:
  "run es s = Inr s' \<Longrightarrow>
   available_machines (items s') g + in_use s' g = available_machines (items s) g + in_use s g"
proof (induction es arbitrary: s)
  case Nil
  then show ?case by simp
next
  case (Cons e es)
  then obtain s1 where "step e s = Inr s1" and "run es s1 = Inr s'"
    by (auto split: sum.splits)
  with Cons.IH [of s1] step_total [of e s s1 g] show ?case by simp
qed

text \<open>
  Claim C7: for a factory with distinct group names and a non-negative capacity of
  group \<open>r\<close>, the pool holds exactly \<open>capacity[r]\<close> machines of that group and no
  process holds any before the first event; and in every state the run reaches,
  whatever the schedule, the available machines of the group and those held by the
  processes add up to \<open>capacity[r]\<close>.
\<close>

theorem capacity_invariant:
  assumes "initial pl = Inr s0" and "run schedule s0 = Inr s"
    and "distinct (factory_resource_names pl)"
    and "r < length (factory_resource_names pl)"
    and "0 \<le> factory_capacity pl ! r"
  shows "int (available_machines (items s0) (factory_resource_names pl ! r)) = factory_capacity pl ! r \<and>
         in_use s0 (factory_resource_names pl ! r) = 0 \<and>
         int (available_machines (items s) (factory_resource_names pl ! r) +
              in_use s (factory_resource_names pl ! r)) = factory_capacity pl ! r"
proof -
  from initial_capacity [OF assms(1,3,4)] assms(5)
  have a: "int (available_machines (items s0) (factory_resource_names pl ! r)) = factory_capacity pl ! r"
    and b: "in_use s0 (factory_resource_names pl ! r) = 0"
    by (simp_all add: in_use_def)
  from run_total [OF assms(2), of "factory_resource_names pl ! r"] a b show ?thesis
    by simp
qed

text \<open>
  Claim C7 at the example: while activity 0 runs, no filter is available and one is
  held, of a capacity of 1.
\<close>

theorem capacity_invariant_witness:
  "initial (example_plan \<lparr>min_lag = 1, max_lag = None\<rparr>) =
     Inr (example_initial \<lparr>min_lag = 1, max_lag = None\<rparr>) \<and>
   run [Dispatch 0 0 4 [1, 0], Resume 0, Resume 0, Resume 0, Tick 1, Dispatch 2 0 5 [0, 1]]
     (example_initial \<lparr>min_lag = 1, max_lag = None\<rparr>) =
     Inr (example_started \<lparr>min_lag = 1, max_lag = None\<rparr> 1 2) \<and>
   distinct (factory_resource_names (example_plan \<lparr>min_lag = 1, max_lag = None\<rparr>)) \<and>
   factory_resource_names (example_plan \<lparr>min_lag = 1, max_lag = None\<rparr>) ! 0 = ''Filter'' \<and>
   factory_capacity (example_plan \<lparr>min_lag = 1, max_lag = None\<rparr>) ! 0 = 1 \<and>
   available_machines (items (example_initial \<lparr>min_lag = 1, max_lag = None\<rparr>)) ''Filter'' = 1 \<and>
   available_machines (items (example_started \<lparr>min_lag = 1, max_lag = None\<rparr> 1 2)) ''Filter'' = 0 \<and>
   in_use (example_started \<lparr>min_lag = 1, max_lag = None\<rparr> 1 2) ''Filter'' = 1"
proof -
  have i: "initial (example_plan \<lparr>min_lag = 1, max_lag = None\<rparr>) =
     Inr (example_initial \<lparr>min_lag = 1, max_lag = None\<rparr>)"
    by (rule initial_example)
  have r: "run [Dispatch 0 0 4 [1, 0], Resume 0, Resume 0, Resume 0, Tick 1, Dispatch 2 0 5 [0, 1]]
     (example_initial \<lparr>min_lag = 1, max_lag = None\<rparr>) =
     Inr (example_started \<lparr>min_lag = 1, max_lag = None\<rparr> 1 2)"
    using run_example_started [of 1 2 "\<lparr>min_lag = 1, max_lag = None\<rparr>"] by simp
  have d: "distinct (factory_resource_names (example_plan \<lparr>min_lag = 1, max_lag = None\<rparr>))"
    by (simp add: example_defs)
  have l: "0 < length (factory_resource_names (example_plan \<lparr>min_lag = 1, max_lag = None\<rparr>))"
    by (simp add: example_defs)
  have c: "0 \<le> factory_capacity (example_plan \<lparr>min_lag = 1, max_lag = None\<rparr>) ! 0"
    by (simp add: example_defs)
  have n: "factory_resource_names (example_plan \<lparr>min_lag = 1, max_lag = None\<rparr>) ! 0 = ''Filter''"
    by (simp add: example_defs)
  have k: "factory_capacity (example_plan \<lparr>min_lag = 1, max_lag = None\<rparr>) ! 0 = 1"
    by (simp add: example_defs)
  have a: "available_machines (items (example_started \<lparr>min_lag = 1, max_lag = None\<rparr> 1 2)) ''Filter'' = 0"
    by (simp add: example_defs available_machines_def)
  from capacity_invariant [OF i r d l c] i r d n k a show ?thesis
    by simp
qed

section \<open>The placeholder rows\<close>

lemma sentinel_fold:
  "map_of (fold (\<lambda>act. AList.update act (sentinel (fst act) (snd act))) acts d) k =
   (if k \<in> set acts then Some (sentinel (fst k) (snd k)) else map_of d k)"
  by (induction acts arbitrary: d) (auto simp: update_conv')

lemma initial_sentinel:
  "initial pl = Inr s0 \<Longrightarrow> k \<in> set (earliest_start pl) \<Longrightarrow>
   map_of (resource_usage s0) k = Some (sentinel (fst k) (snd k))"
  by (auto simp: initial_def sentinel_fold split: if_splits sum.splits)

lemma activity_processing_completed_row:
  assumes "activity_processing pid s = Inr s'"
  shows "(\<forall>i<length (procs s). p_pc (procs s ! i) = Completed \<longrightarrow> procs s' ! i = procs s ! i) \<and>
         length (procs s') = length (procs s) \<and>
         (resource_usage s' = resource_usage s \<or>
          (pid < length (procs s') \<and> p_pc (procs s' ! pid) = Completed \<and>
           (\<exists>row. resource_usage s' =
              AList.update (p_product_index (procs s' ! pid), p_activity_id (procs s' ! pid)) row
                (resource_usage s))))"
proof (cases "pid < length (procs s)")
  case False
  with assms show ?thesis by (simp add: activity_processing_def)
next
  case True
  note pid = True
  show ?thesis
  proof (cases "p_pc (procs s ! pid)")
    case Requested
    from assms pid Requested obtain c s1 where
      chk: "constraint_check s (p_needs (procs s ! pid)) (p_product_index (procs s ! pid))
              (p_activity_id (procs s ! pid)) = Inr (c, s1)"
      by (auto simp: activity_processing_def Let_def split: sum.splits)
    show ?thesis
    proof (cases "c = None")
      case True
      from activity_processing_requested(1) [OF pid Requested chk True] assms
      obtain gs where "s' = set_proc pid ((procs s ! pid)\<lparr>request_time := now s, p_resources := [],
                                  p_pc := Acquiring gs\<rparr>) (s\<lparr>failure_code := None\<rparr>)"
        by auto
      with pid Requested show ?thesis
        by (auto simp: set_proc_def nth_list_update)
    next
      case False
      from activity_processing_requested(2) [OF pid Requested chk False] assms
      have "s' = set_proc pid ((procs s ! pid)\<lparr>request_time := now s, p_pc := Rejected\<rparr>)
                    (s\<lparr>failure_code := c,
                       signalled := signalled s @
                         [(p_product_index (procs s ! pid), p_activity_id (procs s ! pid), now s, c)],
                       nr_clashes := nr_clashes s + 1\<rparr>)"
        by simp
      with pid Requested show ?thesis
        by (auto simp: set_proc_def nth_list_update)
    qed
  next
    case (Acquiring gs)
    with assms pid show ?thesis
      by (auto simp: activity_processing_def Let_def set_proc_def log_activity_def nth_list_update
               split: list.splits sum.splits option.splits if_splits)
  next
    case Running
    with assms pid show ?thesis
      by (auto simp: activity_processing_def Let_def set_proc_def log_activity_def nth_list_update
               split: sum.splits if_splits)
  next
    case (Releasing ms)
    with assms pid show ?thesis
      by (auto simp: activity_processing_def Let_def set_proc_def nth_list_update
               split: list.splits if_splits)
  next
    case Completed
    with assms pid show ?thesis by (simp add: activity_processing_def Let_def)
  next
    case Rejected
    with assms pid show ?thesis by (simp add: activity_processing_def Let_def)
  qed
qed

lemma completed_nth:
  "completed s product_index act_id \<longleftrightarrow>
   (\<exists>i<length (procs s). p_pc (procs s ! i) = Completed \<and>
       p_product_index (procs s ! i) = product_index \<and> p_activity_id (procs s ! i) = act_id)"
  unfolding completed_def by (metis in_set_conv_nth)

lemma activity_processing_row:
  assumes "activity_processing pid s = Inr s'"
  shows "completed s product_index act_id \<longrightarrow> completed s' product_index act_id"
    and "\<not> completed s' product_index act_id \<longrightarrow>
         map_of (resource_usage s') (product_index, act_id) =
         map_of (resource_usage s) (product_index, act_id)"
proof -
  note facts = activity_processing_completed_row [OF assms]
  show "completed s product_index act_id \<longrightarrow> completed s' product_index act_id"
    using facts unfolding completed_nth by metis
  show "\<not> completed s' product_index act_id \<longrightarrow>
         map_of (resource_usage s') (product_index, act_id) =
         map_of (resource_usage s) (product_index, act_id)"
  proof
    assume nc: "\<not> completed s' product_index act_id"
    from facts consider "resource_usage s' = resource_usage s"
      | row where "pid < length (procs s')" "p_pc (procs s' ! pid) = Completed"
          "resource_usage s' =
             AList.update (p_product_index (procs s' ! pid), p_activity_id (procs s' ! pid)) row
               (resource_usage s)"
      by blast
    then show "map_of (resource_usage s') (product_index, act_id) =
               map_of (resource_usage s) (product_index, act_id)"
    proof cases
      case 1
      then show ?thesis by simp
    next
      case 2
      with nc have "(p_product_index (procs s' ! pid), p_activity_id (procs s' ! pid)) \<noteq>
                    (product_index, act_id)"
        unfolding completed_nth by auto
      with 2(3) show ?thesis
        by (auto simp: update_conv')
    qed
  qed
qed

lemma step_row:
  assumes "step e s = Inr s'"
  shows "completed s product_index act_id \<longrightarrow> completed s' product_index act_id"
    and "\<not> completed s' product_index act_id \<longrightarrow>
         map_of (resource_usage s') (product_index, act_id) =
         map_of (resource_usage s) (product_index, act_id)"
proof -
  show "completed s product_index act_id \<longrightarrow> completed s' product_index act_id"
  proof (cases e)
    case (Resume pid)
    with assms activity_processing_row(1) [of pid s s'] show ?thesis by simp
  qed (use assms in \<open>auto simp: completed_def\<close>)
  show "\<not> completed s' product_index act_id \<longrightarrow>
         map_of (resource_usage s') (product_index, act_id) =
         map_of (resource_usage s) (product_index, act_id)"
  proof (cases e)
    case (Resume pid)
    with assms activity_processing_row(2) [of pid s s'] show ?thesis by simp
  qed (use assms in auto)
qed

lemma run_row:
  "run es s = Inr s' \<Longrightarrow>
   (completed s product_index act_id \<longrightarrow> completed s' product_index act_id) \<and>
   (\<not> completed s' product_index act_id \<longrightarrow>
      map_of (resource_usage s') (product_index, act_id) =
      map_of (resource_usage s) (product_index, act_id))"
proof (induction es arbitrary: s)
  case Nil
  then show ?case by simp
next
  case (Cons e es)
  then obtain s1 where e: "step e s = Inr s1" and es: "run es s1 = Inr s'"
    by (auto split: sum.splits)
  from Cons.IH [OF es] step_row [OF e, of product_index act_id] show ?case
    by auto
qed

text \<open>
  Claim C10: in every state a run reaches, a planned activity of which no process has
  completed (rejected, never dispatched, or still in flight) has the placeholder as
  its row of the output table: needs \<open>+\<infinity>\<close>, the marker
  \<^verbatim>\<open>NOT PROCESSED DUE TO CLASH\<close> as resources and \<open>+\<infinity>\<close> as request, retrieve, start
  and finish time.
\<close>

theorem unfinished_rows_are_sentinels:
  assumes "initial pl = Inr s0" and "run schedule s0 = Inr s"
    and "(product_index, act_id) \<in> set (earliest_start pl)"
    and "\<not> completed s product_index act_id"
  shows "map_of (resource_usage s) (product_index, act_id) = Some (sentinel product_index act_id) \<and>
         sentinel product_index act_id \<in> set (output_table s) \<and>
         Needs (sentinel product_index act_id) = NeedsInfinite \<and>
         Resources (sentinel product_index act_id) = Marker ''NOT PROCESSED DUE TO CLASH'' \<and>
         Request (sentinel product_index act_id) = Infinite \<and>
         Retrieve (sentinel product_index act_id) = Infinite \<and>
         Start (sentinel product_index act_id) = Infinite \<and>
         Finish (sentinel product_index act_id) = Infinite"
proof -
  from initial_sentinel [OF assms(1,3)] run_row [OF assms(2), of product_index act_id] assms(4)
  have row: "map_of (resource_usage s) (product_index, act_id) = Some (sentinel product_index act_id)"
    by simp
  then have "((product_index, act_id), sentinel product_index act_id) \<in> set (resource_usage s)"
    by (rule map_of_SomeD)
  then have "sentinel product_index act_id \<in> set (output_table s)"
    by (force simp: output_table_def)
  with row show ?thesis
    by (simp add: sentinel_def)
qed

text \<open>
  Claim C10 at the example: activity 0 is still running at time 1 and its row is the
  placeholder.
\<close>

theorem unfinished_rows_are_sentinels_witness:
  "initial (example_plan \<lparr>min_lag = 1, max_lag = None\<rparr>) =
     Inr (example_initial \<lparr>min_lag = 1, max_lag = None\<rparr>) \<and>
   run [Dispatch 0 0 4 [1, 0], Resume 0, Resume 0, Resume 0, Tick 1, Dispatch 2 0 5 [0, 1]]
     (example_initial \<lparr>min_lag = 1, max_lag = None\<rparr>) =
     Inr (example_started \<lparr>min_lag = 1, max_lag = None\<rparr> 1 2) \<and>
   (0, 0) \<in> set (earliest_start (example_plan \<lparr>min_lag = 1, max_lag = None\<rparr>)) \<and>
   \<not> completed (example_started \<lparr>min_lag = 1, max_lag = None\<rparr> 1 2) 0 0 \<and>
   map_of (resource_usage (example_started \<lparr>min_lag = 1, max_lag = None\<rparr> 1 2)) (0, 0) =
     Some (sentinel 0 0) \<and>
   sentinel 0 0 \<in> set (output_table (example_started \<lparr>min_lag = 1, max_lag = None\<rparr> 1 2))"
proof -
  have i: "initial (example_plan \<lparr>min_lag = 1, max_lag = None\<rparr>) =
     Inr (example_initial \<lparr>min_lag = 1, max_lag = None\<rparr>)"
    by (rule initial_example)
  have r: "run [Dispatch 0 0 4 [1, 0], Resume 0, Resume 0, Resume 0, Tick 1, Dispatch 2 0 5 [0, 1]]
     (example_initial \<lparr>min_lag = 1, max_lag = None\<rparr>) =
     Inr (example_started \<lparr>min_lag = 1, max_lag = None\<rparr> 1 2)"
    using run_example_started [of 1 2 "\<lparr>min_lag = 1, max_lag = None\<rparr>"] by simp
  have m: "(0, 0) \<in> set (earliest_start (example_plan \<lparr>min_lag = 1, max_lag = None\<rparr>))"
    by (simp add: example_defs)
  have c: "\<not> completed (example_started \<lparr>min_lag = 1, max_lag = None\<rparr> 1 2) 0 0"
    by (simp add: example_defs completed_def)
  from unfinished_rows_are_sentinels [OF i r m c] i r m c show ?thesis
    by simp
qed

end
